theory Spec2Isabelle
  imports Main
begin

section \<open>The IAM member report: data\<close>

text \<open>
  The program \<^verbatim>\<open>iam_member_report.py\<close> reads JSON documents of the Cloud Resource
  Manager service and writes one CSV row per member of every IAM binding it finds.
  A JSON object is a record here: a key the source reads by subscript
  (\<^verbatim>\<open>binding['role']\<close>, \<^verbatim>\<open>folder['name']\<close>, \<^verbatim>\<open>project['projectId']\<close>,
  \<^verbatim>\<open>project['lifecycleState']\<close>, \<^verbatim>\<open>org['name']\<close>) is a field, a key it reads with
  \<^verbatim>\<open>.get(key, default)\<close> is an optional field.
\<close>

record binding =
  role :: string
  members :: "string list option"

record policy =
  bindings :: "binding list option"

record organization =
  org_name :: string

record folder =
  folder_name :: string

record resource_id =
  parent_id :: "string option"

record project =
  projectId :: string
  lifecycleState :: string
  project_parent :: "resource_id option"

record folders_response =
  resp_folders :: "folder list option"
  folders_nextPageToken :: "string option"

record projects_response =
  resp_projects :: "project list option"
  projects_nextPageToken :: "string option"

text \<open>
  A report row is the tuple \<^verbatim>\<open>(mem, typ, role, org_id, folder_id, project_id)\<close>; a
  location is its last three components.
\<close>

type_synonym row = "string \<times> string \<times> string \<times> string \<times> string \<times> string"

type_synonym location = "string \<times> string \<times> string"

text \<open>
  \<^verbatim>\<open>HttpError\<close> is the exception of the client library that the source catches; its
  argument is the text of \<^verbatim>\<open>{e}\<close>. The exceptions that leave \<^verbatim>\<open>run\<close> are the
  \<^verbatim>\<open>SystemExit\<close> it raises itself, an \<^verbatim>\<open>HttpError\<close> of a call outside any
  \<^verbatim>\<open>try\<close>, the \<^verbatim>\<open>ValueError\<close> of a tuple unpacking, the \<^verbatim>\<open>IndexError\<close> of a
  subscript and the \<^verbatim>\<open>OSError\<close> of opening the output file. A call of the service
  fails with \<^verbatim>\<open>HttpError\<close> or not at all.
\<close>

datatype http_error = HttpError string

datatype exn =
    SystemExit string
  | Uncaught http_error
  | ValueError
  | IndexError
  | OSError

section \<open>Strings\<close>

text \<open>\<^verbatim>\<open>s.split(d)\<close> for a one-character separator: one part more than separators.\<close>

fun split_on :: "char \<Rightarrow> string \<Rightarrow> string list" where
  "split_on d [] = [[]]"
| "split_on d (c # cs) =
     (let ps = split_on d cs
      in if c = d then [] # ps else (c # hd ps) # tl ps)"

text \<open>\<^verbatim>\<open>typ, mem = parts\<close>: unpacking into two names raises unless there are two parts.\<close>

definition unpack2 :: "string list \<Rightarrow> exn + string \<times> string" where
  "unpack2 parts = (case parts of [typ, mem] \<Rightarrow> Inr (typ, mem) | _ \<Rightarrow> Inl ValueError)"

text \<open>\<^verbatim>\<open>parts[1]\<close>.\<close>

definition index1 :: "string list \<Rightarrow> exn + string" where
  "index1 parts = (case parts of _ # x # _ \<Rightarrow> Inr x | _ \<Rightarrow> Inl IndexError)"

text \<open>
  \<^verbatim>\<open>s.lower()\<close> on the ASCII letters. A character outside ASCII is left as it is: no
  such character lowers to a letter of \<^verbatim>\<open>active\<close>, the only string a lowered string
  is compared with.
\<close>

definition lower_char :: "char \<Rightarrow> char" where
  "lower_char c =
     (case map_of (zip ''ABCDEFGHIJKLMNOPQRSTUVWXYZ'' ''abcdefghijklmnopqrstuvwxyz'') c of
        Some d \<Rightarrow> d
      | None \<Rightarrow> c)"

definition lower :: "string \<Rightarrow> string" where
  "lower s = map lower_char s"

text \<open>An f-string field: \<^verbatim>\<open>None\<close> prints as \<^verbatim>\<open>None\<close>.\<close>

definition fmt :: "string option \<Rightarrow> string" where
  "fmt v = (case v of None \<Rightarrow> ''None'' | Some s \<Rightarrow> s)"

text \<open>The truth value of an optional string: \<^verbatim>\<open>None\<close> and the empty string are false.\<close>

definition truthy :: "string option \<Rightarrow> bool" where
  "truthy v = (case v of None \<Rightarrow> False | Some s \<Rightarrow> s \<noteq> [])"

section \<open>Flattening a policy\<close>

text \<open>
  The source has the same two nested loops at its three places (organization, folder,
  project); they differ in the location written into the row. The loops append to
  \<^verbatim>\<open>final_results\<close>, the last argument here; when the unpacking raises, the rows
  appended so far stay appended.
  \<^verbatim>\<open>
  for binding in iam.get('bindings', []):
      for member in binding.get('members', []):
          typ, mem = member.split(':')
          r = (mem, typ, binding['role'], org_id, '', '')
          final_results.append(r)
  \<close>
\<close>

fun append_members :: "location \<Rightarrow> string \<Rightarrow> string list \<Rightarrow> row list \<Rightarrow> exn \<times> row list + row list" where
  "append_members loc r [] rs = Inr rs"
| "append_members loc r (member # ms) rs =
     (case unpack2 (split_on CHR '':'' member) of
        Inl e \<Rightarrow> Inl (e, rs)
      | Inr (typ, mem) \<Rightarrow> append_members loc r ms (rs @ [(mem, typ, r, loc)]))"

definition members_of :: "binding \<Rightarrow> string list" where
  "members_of b = (case members b of None \<Rightarrow> [] | Some ms \<Rightarrow> ms)"

definition bindings_of :: "policy \<Rightarrow> binding list" where
  "bindings_of iam = (case bindings iam of None \<Rightarrow> [] | Some bs \<Rightarrow> bs)"

fun append_bindings :: "location \<Rightarrow> binding list \<Rightarrow> row list \<Rightarrow> exn \<times> row list + row list" where
  "append_bindings loc [] rs = Inr rs"
| "append_bindings loc (b # bs) rs =
     (case append_members loc (role b) (members_of b) rs of
        Inl x \<Rightarrow> Inl x
      | Inr rs' \<Rightarrow> append_bindings loc bs rs')"

definition flatten :: "location \<Rightarrow> policy \<Rightarrow> row list \<Rightarrow> exn \<times> row list + row list" where
  "flatten loc iam rs = append_bindings loc (bindings_of iam) rs"

text \<open>A member string the unpacking accepts, and a policy of such members only.\<close>

definition one_colon :: "string \<Rightarrow> bool" where
  "one_colon member = (count_list member CHR '':'' = 1)"

definition well_formed :: "policy \<Rightarrow> bool" where
  "well_formed iam = list_all (\<lambda>b. list_all one_colon (members_of b)) (bindings_of iam)"

definition member_count :: "policy \<Rightarrow> nat" where
  "member_count iam = sum_list (map (\<lambda>b. length (members_of b)) (bindings_of iam))"

section \<open>The service and the state of a run\<close>

text \<open>
  The Cloud Resource Manager service is a parameter of the model. A call answers with a
  response or raises \<^verbatim>\<open>HttpError\<close>; the answer may depend on the moment of the call,
  which is the number of calls executed before it, so that a call that failed may
  succeed when it is executed again. \<^verbatim>\<open>open_w\<close> tells whether the output file of
  that name can be opened for writing.

  Only the execution of a request is a step of the model. Building the request
  (\<^verbatim>\<open>crm_v1.organizations().get(name=...)\<close>, \<^verbatim>\<open>crm_v2.folders().getIamPolicy(resource=...)\<close>
  and the others) is done by the client library, which is not part of the repository:
  there a resource name outside the format of the method, such as a folder name that is
  not \<^verbatim>\<open>folders/\<close> followed by a non-empty id without a slash, or an empty organization
  id, is refused with \<^verbatim>\<open>TypeError\<close> before anything is sent. The model lets the service
  be asked about any name; what depends on the names the service lists is stated with
  an assumption about them.
\<close>

record api =
  organizations_get :: "nat \<Rightarrow> string \<Rightarrow> http_error + organization"
  projects_list :: "nat \<Rightarrow> string option \<Rightarrow> http_error + projects_response"
  organizations_getIamPolicy :: "nat \<Rightarrow> string \<Rightarrow> http_error + policy"
  folders_list :: "nat \<Rightarrow> string \<Rightarrow> string option \<Rightarrow> http_error + folders_response"
  folders_getIamPolicy :: "nat \<Rightarrow> string \<Rightarrow> http_error + policy"
  projects_getIamPolicy :: "nat \<Rightarrow> string \<Rightarrow> http_error + policy"
  open_w :: "string \<Rightarrow> bool"

datatype api_call =
    OrganizationsGet string
  | ProjectsList "string option"
  | OrganizationsGetIamPolicy string
  | FoldersList string "string option"
  | FoldersGetIamPolicy string
  | ProjectsGetIamPolicy string

text \<open>
  The state holds the local variables of \<^verbatim>\<open>run\<close> (\<^verbatim>\<open>_ERROR\<close>, \<^verbatim>\<open>projects\<close>,
  \<^verbatim>\<open>final_results\<close>, \<^verbatim>\<open>folders\<close>, \<^verbatim>\<open>stack\<close>) and what the run has done to the
  world: the lines printed on the two streams, the calls executed, each with whether it
  succeeded, and the rows written to the output file (\<open>None\<close> while the file has
  not been opened).
\<close>

record state =
  ERROR :: "bool option"
  projects :: "project list"
  final_results :: "row list"
  folders :: "string set"
  stack :: "string list"
  stdout :: "string list"
  stderr :: "string list"
  calls :: "(api_call \<times> bool) list"
  written :: "row list option"

type_synonym outcome = "exn \<times> state + state"

definition init_state :: state where
  "init_state =
     \<lparr>ERROR = None, projects = [], final_results = [], folders = {}, stack = [],
      stdout = [], stderr = [], calls = [], written = None\<rparr>"

definition print_out :: "string \<Rightarrow> state \<Rightarrow> state" where
  "print_out m st = st\<lparr>stdout := stdout st @ [m]\<rparr>"

definition print_err :: "string \<Rightarrow> state \<Rightarrow> state" where
  "print_err m st = st\<lparr>stderr := stderr st @ [m]\<rparr>"

text \<open>\<^verbatim>\<open>request.execute()\<close>: the service answers, the call is recorded.\<close>

definition succeeded :: "http_error + 'a \<Rightarrow> bool" where
  "succeeded r = (case r of Inl _ \<Rightarrow> False | Inr _ \<Rightarrow> True)"

definition execute :: "(nat \<Rightarrow> http_error + 'a) \<Rightarrow> api_call \<Rightarrow> state \<Rightarrow> (http_error + 'a) \<times> state" where
  "execute request c st =
     (let r = request (length (calls st))
      in (r, st\<lparr>calls := calls st @ [(c, succeeded r)]\<rparr>))"

text \<open>
  \<^verbatim>\<open>list_next(previous_request, previous_response)\<close> of the client library: the request
  for the next page, or \<^verbatim>\<open>None\<close> when the response carries no page token.
\<close>

definition list_next :: "string option \<Rightarrow> string option" where
  "list_next token = (if truthy token then token else None)"

text \<open>The rows of a policy appended to \<^verbatim>\<open>final_results\<close>.\<close>

definition flatten_into :: "location \<Rightarrow> policy \<Rightarrow> state \<Rightarrow> outcome" where
  "flatten_into loc iam st =
     (case flatten loc iam (final_results st) of
        Inl (e, rs) \<Rightarrow> Inl (e, st\<lparr>final_results := rs\<rparr>)
      | Inr rs \<Rightarrow> Inr (st\<lparr>final_results := rs\<rparr>))"

section \<open>The phases of \<^verbatim>\<open>run\<close>\<close>

text \<open>
  Listing the projects, page by page. The call is outside any \<^verbatim>\<open>try\<close>.
  \<^verbatim>\<open>
  request = crm_v1.projects().list()
  while request:
      print('Getting projects...')
      response = request.execute()
      projects.extend(response.get('projects', []))
      request = crm_v1.projects().list_next(previous_request=request,
                                            previous_response=response)
  \<close>
\<close>

definition projects_of :: "projects_response \<Rightarrow> project list" where
  "projects_of response = (case resp_projects response of None \<Rightarrow> [] | Some ps \<Rightarrow> ps)"

partial_function (option) get_projects :: "api \<Rightarrow> string option \<Rightarrow> state \<Rightarrow> outcome option" where
  "get_projects a token st =
     (case execute (\<lambda>t. projects_list a t token) (ProjectsList token)
             (print_out ''Getting projects...'' st) of
        (Inl e, st1) \<Rightarrow> Some (Inl (Uncaught e, st1))
      | (Inr response, st1) \<Rightarrow>
          (let st2 = st1\<lparr>projects := projects st1 @ projects_of response\<rparr>
           in case list_next (projects_nextPageToken response) of
                None \<Rightarrow> Some (Inr st2)
              | Some tok \<Rightarrow> get_projects a (Some tok) st2))"

text \<open>
  The policy of the organization, fetched when no folder was given.
  \<^verbatim>\<open>
  request = crm_v1.organizations().getIamPolicy(resource=org['name'])
  try:
      iam = request.execute()
  except HttpError as e:
      _ERROR = True
      m = f'Error getting org folder "{folder_id}" IAM policy: {e}'
      print(m, file=sys.stderr)
  else:
      for binding in iam.get('bindings', []): ...
  \<close>
\<close>

definition org_policy :: "api \<Rightarrow> string \<Rightarrow> string option \<Rightarrow> organization \<Rightarrow> state \<Rightarrow> outcome" where
  \<open>org_policy a org_id folder_id org st =
     (case execute (\<lambda>t. organizations_getIamPolicy a t (org_name org))
             (OrganizationsGetIamPolicy (org_name org)) st of
        (Inl (HttpError e), st1) \<Rightarrow>
          Inr (print_err (''Error getting org folder "'' @ fmt folder_id @ ''" IAM policy: '' @ e)
                 (st1\<lparr>ERROR := Some True\<rparr>))
      | (Inr iam, st1) \<Rightarrow> flatten_into (org_id, [], []) iam st1)\<close>

text \<open>
  The folders of one page of a listing.
  \<^verbatim>\<open>
  for folder in response.get('folders', []):
      fname = folder['name']
      fid = fname.split('/')[1]
      stack.append(folder['name'])
      folders.add(fid)
      req = crm_v2.folders().getIamPolicy(resource=folder['name'])
      try:
          iam = req.execute()
      except HttpError as e:
          _ERROR = True
          print(f'Error getting folder "{fid} IAM: {e}')
          continue
      for binding in iam.get('bindings', []): ...
  \<close>
\<close>

fun process_folders :: "api \<Rightarrow> folder list \<Rightarrow> state \<Rightarrow> outcome" where
  \<open>process_folders a [] st = Inr st\<close>
| \<open>process_folders a (f # rest) st =
     (case index1 (split_on CHR ''/'' (folder_name f)) of
        Inl e \<Rightarrow> Inl (e, st)
      | Inr fid \<Rightarrow>
          (case execute (\<lambda>t. folders_getIamPolicy a t (folder_name f))
                  (FoldersGetIamPolicy (folder_name f))
                  (st\<lparr>stack := stack st @ [folder_name f], folders := insert fid (folders st)\<rparr>) of
             (Inl (HttpError e), st1) \<Rightarrow>
               process_folders a rest
                 (print_out (''Error getting folder "'' @ fid @ '' IAM: '' @ e)
                    (st1\<lparr>ERROR := Some True\<rparr>))
           | (Inr iam, st1) \<Rightarrow>
               (case flatten_into ([], fid, []) iam st1 of
                  Inl x \<Rightarrow> Inl x
                | Inr st2 \<Rightarrow> process_folders a rest st2)))\<close>

definition folders_of :: "folders_response \<Rightarrow> folder list" where
  "folders_of response = (case resp_folders response of None \<Rightarrow> [] | Some fs \<Rightarrow> fs)"

text \<open>
  The pages of the children of one node. The \<^verbatim>\<open>continue\<close> of the handler is the
  \<^verbatim>\<open>continue\<close> of this loop: the same request is executed again.
  \<^verbatim>\<open>
  request = crm_v2.folders().list(parent=current)
  while request:
      print('Getting folders...')
      try:
          response = request.execute()
      except HttpError as e:
          _ERROR = True
          m = f'Error getting child folders of "{current}": {e}'
          print(m, file=sys.stderr)
          continue
      for folder in response.get('folders', []): ...
      request = crm_v2.folders().list_next(previous_request=request,
                                           previous_response=response)
  \<close>
\<close>

partial_function (option) list_children :: "api \<Rightarrow> string \<Rightarrow> string option \<Rightarrow> state \<Rightarrow> outcome option" where
  \<open>list_children a current token st =
     (case execute (\<lambda>t. folders_list a t current token) (FoldersList current token)
             (print_out ''Getting folders...'' st) of
        (Inl (HttpError e), st1) \<Rightarrow>
          list_children a current token
            (print_err (''Error getting child folders of "'' @ current @ ''": '' @ e)
               (st1\<lparr>ERROR := Some True\<rparr>))
      | (Inr response, st1) \<Rightarrow>
          (case process_folders a (folders_of response) st1 of
             Inl x \<Rightarrow> Some (Inl x)
           | Inr st2 \<Rightarrow>
               (case list_next (folders_nextPageToken response) of
                  None \<Rightarrow> Some (Inr st2)
                | Some tok \<Rightarrow> list_children a current (Some tok) st2)))\<close>

text \<open>
  The walk over the work stack.
  \<^verbatim>\<open>
  while stack:
      current = stack.pop()
      ...
  \<close>
\<close>

partial_function (option) walk :: "api \<Rightarrow> state \<Rightarrow> outcome option" where
  "walk a st =
     (if stack st = [] then Some (Inr st)
      else Option.bind
             (list_children a (last (stack st)) None (st\<lparr>stack := butlast (stack st)\<rparr>))
             (\<lambda>r. case r of Inl x \<Rightarrow> Some (Inl x) | Inr st1 \<Rightarrow> walk a st1))"

text \<open>
  The join of the projects with the folders walked.
  \<^verbatim>\<open>
  parent = project.get('parent', {})
  pid = project['projectId']
  if (project['lifecycleState'].lower() == 'active' and
          (parent.get('id') == org_id or parent.get('id') in folders)):
  \<close>
  \<^verbatim>\<open>org_id\<close> and the elements of \<^verbatim>\<open>folders\<close> are strings, so a missing parent or a
  missing id, which is \<^verbatim>\<open>None\<close>, equals none of them.
\<close>

definition parent_get_id :: "project \<Rightarrow> string option" where
  "parent_get_id p = (case project_parent p of None \<Rightarrow> None | Some par \<Rightarrow> parent_id par)"

definition selected :: "string \<Rightarrow> string set \<Rightarrow> project \<Rightarrow> bool" where
  "selected org_id fs p =
     (lower (lifecycleState p) = ''active'' \<and>
      (parent_get_id p = Some org_id \<or>
       (case parent_get_id p of None \<Rightarrow> False | Some i \<Rightarrow> i \<in> fs)))"

text \<open>
  \<^verbatim>\<open>
  for project in projects:
      ...
      if (...):
          req = crm_v1.projects().getIamPolicy(resource=pid)
          try:
              iam = req.execute()
          except HttpError as e:
              _ERROR = True
              print(f'Error getting project IAM: {e}', file=sys.stderr)
              continue
          for binding in iam.get('bindings', []): ...
  \<close>
\<close>

fun process_projects :: "api \<Rightarrow> string \<Rightarrow> project list \<Rightarrow> state \<Rightarrow> outcome" where
  "process_projects a org_id [] st = Inr st"
| "process_projects a org_id (p # rest) st =
     (if selected org_id (folders st) p
      then (case execute (\<lambda>t. projects_getIamPolicy a t (projectId p))
                    (ProjectsGetIamPolicy (projectId p)) st of
              (Inl (HttpError e), st1) \<Rightarrow>
                process_projects a org_id rest
                  (print_err (''Error getting project IAM: '' @ e) (st1\<lparr>ERROR := Some True\<rparr>))
            | (Inr iam, st1) \<Rightarrow>
                (case flatten_into ([], [], projectId p) iam st1 of
                   Inl x \<Rightarrow> Inl x
                 | Inr st2 \<Rightarrow> process_projects a org_id rest st2))
      else process_projects a org_id rest st)"

text \<open>
  Writing the file: the header, then the rows.
  \<^verbatim>\<open>
  print(f'Writing file "{outfile.filename}"')
  with outfile.open() as f:
      writer = csv.writer(f)
      writer.writerow(('member', 'member_type', 'role',
                       'org_id', 'folder_id', 'project_id'))
      writer.writerows(final_results)
  print('Done.')
  if _ERROR:
      print('There were errors while generating the report; it may not be '
            'completely accurate.')
  return _ERROR
  \<close>
\<close>

definition header :: row where
  "header = (''member'', ''member_type'', ''role'', ''org_id'', ''folder_id'', ''project_id'')"

definition write_file :: "api \<Rightarrow> string \<Rightarrow> state \<Rightarrow> outcome" where
  \<open>write_file a filename st =
     (let st1 = print_out (''Writing file "'' @ filename @ ''"'') st
      in if open_w a filename
         then (let st2 = print_out ''Done.'' (st1\<lparr>written := Some (header # final_results st1)\<rparr>)
               in Inr (if ERROR st2 = Some True
                       then print_out ''There were errors while generating the report; it may not be completely accurate.'' st2
                       else st2))
         else Inl (OSError, st1))\<close>

text \<open>
  The part of \<^verbatim>\<open>run\<close> from the choice of the parent node on.
  \<^verbatim>\<open>
  if folder_id:
      parent = f'folders/{folder_id}'
  else:
      parent = org['name']
      ... the policy of the organization ...
  folders = set()
  stack = [parent]
  \<close>
\<close>

definition set_parent :: "api \<Rightarrow> string \<Rightarrow> string option \<Rightarrow> organization \<Rightarrow> state \<Rightarrow> outcome" where
  "set_parent a org_id folder_id org st =
     (if truthy folder_id
      then Inr (st\<lparr>folders := {}, stack := [''folders/'' @ fmt folder_id]\<rparr>)
      else (case org_policy a org_id folder_id org st of
              Inl x \<Rightarrow> Inl x
            | Inr st1 \<Rightarrow> Inr (st1\<lparr>folders := {}, stack := [org_name org]\<rparr>)))"

definition after_walk :: "api \<Rightarrow> string \<Rightarrow> string \<Rightarrow> outcome \<Rightarrow> outcome" where
  "after_walk a org_id filename r =
     (case r of
        Inl x \<Rightarrow> Inl x
      | Inr st \<Rightarrow>
          (case process_projects a org_id (projects st) (print_out ''Processing results...'' st) of
             Inl x \<Rightarrow> Inl x
           | Inr st1 \<Rightarrow> write_file a filename st1))"

definition after_projects :: "api \<Rightarrow> string \<Rightarrow> string option \<Rightarrow> string \<Rightarrow> organization \<Rightarrow> outcome \<Rightarrow> outcome option" where
  "after_projects a org_id folder_id filename org r =
     (case r of
        Inl x \<Rightarrow> Some (Inl x)
      | Inr st \<Rightarrow>
          (case set_parent a org_id folder_id org st of
             Inl x \<Rightarrow> Some (Inl x)
           | Inr st1 \<Rightarrow> map_option (after_walk a org_id filename) (walk a st1)))"

text \<open>
  \<^verbatim>\<open>
  def run(org_id, folder_id, outfile):
      _ERROR = None
      ...
      print('Validating organization...')
      request = crm_v1.organizations().get(name=f'organizations/{org_id}')
      try:
          org = request.execute()
      except HttpError as e:
          raise SystemExit(f'Error getting organization: {e}')
  \<close>
  The result is \<open>None\<close> when the run does not return; the value it returns is the
  \<^verbatim>\<open>ERROR\<close> of the final state. The two calls of \<^verbatim>\<open>build\<close>, which make the
  clients of the service, are not steps of the model.
\<close>

definition run :: "api \<Rightarrow> string \<Rightarrow> string option \<Rightarrow> string \<Rightarrow> outcome option" where
  "run a org_id folder_id filename =
     (case execute (\<lambda>t. organizations_get a t (''organizations/'' @ org_id))
             (OrganizationsGet (''organizations/'' @ org_id))
             (print_out ''Validating organization...'' init_state) of
        (Inl (HttpError e), st1) \<Rightarrow>
          Some (Inl (SystemExit (''Error getting organization: '' @ e), st1))
      | (Inr org, st1) \<Rightarrow>
          Option.bind (get_projects a None st1) (after_projects a org_id folder_id filename org))"

text \<open>
  \<^verbatim>\<open>sys.exit(run(args.org_id, args.folder, args.output))\<close>: the exit status is 0 for
  \<^verbatim>\<open>None\<close> and 1 for \<^verbatim>\<open>True\<close>. A \<^verbatim>\<open>SystemExit\<close> with a string prints the string
  on the error stream and exits with status 1; any other exception that leaves
  \<^verbatim>\<open>run\<close> prints a traceback there, of which only the first line is modelled, and
  exits with status 1.
\<close>

record args =
  args_org_id :: string
  args_folder :: "string option"
  args_output :: string

definition sys_exit :: "bool option \<Rightarrow> nat" where
  "sys_exit v = (case v of None \<Rightarrow> 0 | Some b \<Rightarrow> (if b then 1 else 0))"

fun finish :: "outcome \<Rightarrow> nat \<times> state" where
  "finish (Inr st) = (sys_exit (ERROR st), st)"
| "finish (Inl (SystemExit m, st)) = (1, print_err m st)"
| "finish (Inl (e, st)) = (1, print_err ''Traceback (most recent call last):'' st)"

definition main :: "api \<Rightarrow> args \<Rightarrow> (nat \<times> state) option" where
  "main a ar = map_option finish (run a (args_org_id ar) (args_folder ar) (args_output ar))"

declare get_projects.simps [code] list_children.simps [code] walk.simps [code]

section \<open>Notions the properties are stated with\<close>

text \<open>
  The run is degraded when \<^verbatim>\<open>_ERROR\<close> is \<^verbatim>\<open>True\<close>. A run whose flag tells the truth
  has the flag set exactly when one of the calls executed so far failed.
\<close>

definition degraded :: "state \<Rightarrow> bool" where
  "degraded st = (ERROR st = Some True)"

definition all_calls_succeeded :: "state \<Rightarrow> bool" where
  "all_calls_succeeded st = list_all snd (calls st)"

definition flag_ok :: "state \<Rightarrow> bool" where
  "flag_ok st = (ERROR st = (if all_calls_succeeded st then None else Some True))"

text \<open>
  What a phase before the writing of the file leaves as it is: the output file, and a
  flag that is set.
\<close>

definition stable :: "state \<Rightarrow> state \<Rightarrow> bool" where
  "stable st st' = (written st' = written st \<and> (degraded st' \<or> \<not> degraded st))"

text \<open>
  A property \<open>Q\<close> of locations carried from one state to a later one: by the rows, and
  by the projects listed, whose rows will have the location of their id.
\<close>

definition row_location :: "row \<Rightarrow> location" where
  "row_location r = snd (snd (snd r))"

definition rows_within :: "(location \<Rightarrow> bool) \<Rightarrow> state \<Rightarrow> bool" where
  "rows_within Q st = list_all (\<lambda>r. Q (row_location r)) (final_results st)"

definition project_within :: "(location \<Rightarrow> bool) \<Rightarrow> project \<Rightarrow> bool" where
  "project_within Q p = Q ([], [], projectId p)"

definition carried :: "(location \<Rightarrow> bool) \<Rightarrow> state \<Rightarrow> state \<Rightarrow> bool" where
  "carried Q st st' =
     ((rows_within Q st' \<or> \<not> rows_within Q st) \<and>
      (list_all (project_within Q) (projects st') \<or> \<not> list_all (project_within Q) (projects st)))"

text \<open>
  The outcome of a phase started in \<open>st\<close> keeps all of this; when the phase returns,
  the flag is still truthful if it was.
\<close>

definition keeps :: "(location \<Rightarrow> bool) \<Rightarrow> state \<Rightarrow> outcome \<Rightarrow> bool" where
  "keeps Q st r =
     (case r of
        Inl (e, st') \<Rightarrow> stable st st' \<and> carried Q st st'
      | Inr st' \<Rightarrow> stable st st' \<and> carried Q st st' \<and> (flag_ok st' \<or> \<not> flag_ok st))"

text \<open>A service whose listed folders and projects have ids with the property \<open>Q\<close>.\<close>

definition folder_within :: "(location \<Rightarrow> bool) \<Rightarrow> folder \<Rightarrow> bool" where
  "folder_within Q f =
     (case index1 (split_on CHR ''/'' (folder_name f)) of
        Inl e \<Rightarrow> True
      | Inr fid \<Rightarrow> Q ([], fid, []))"

definition lists_within :: "(location \<Rightarrow> bool) \<Rightarrow> api \<Rightarrow> bool" where
  "lists_within Q a =
     ((\<forall>t n tok. case folders_list a t n tok of
                    Inl e \<Rightarrow> True
                  | Inr response \<Rightarrow> list_all (folder_within Q) (folders_of response)) \<and>
      (\<forall>t tok. case projects_list a t tok of
                  Inl e \<Rightarrow> True
                | Inr response \<Rightarrow> list_all (project_within Q) (projects_of response)))"

text \<open>The number of non-empty fields among the three location fields of a row.\<close>

definition filled :: "location \<Rightarrow> nat" where
  "filled loc =
     (case loc of (org, fol, prj) \<Rightarrow> length (filter (\<lambda>s. s \<noteq> []) [org, fol, prj]))"

definition located :: "row \<Rightarrow> nat" where
  "located r = (case r of (mem, typ, rol, loc) \<Rightarrow> filled loc)"

text \<open>
  A service names what it lists when every folder it lists has a name with a non-empty
  second segment, which is the id the source takes from it, and every project it lists
  has a non-empty id.
\<close>

definition has_id :: "folder \<Rightarrow> bool" where
  "has_id f =
     (case index1 (split_on CHR ''/'' (folder_name f)) of Inl e \<Rightarrow> True | Inr fid \<Rightarrow> fid \<noteq> [])"

definition names_what_it_lists :: "api \<Rightarrow> bool" where
  "names_what_it_lists a =
     ((\<forall>t n tok. case folders_list a t n tok of
                    Inl e \<Rightarrow> True
                  | Inr response \<Rightarrow> list_all has_id (folders_of response)) \<and>
      (\<forall>t tok. case projects_list a t tok of
                  Inl e \<Rightarrow> True
                | Inr response \<Rightarrow> list_all (\<lambda>p. projectId p \<noteq> []) (projects_of response)))"

text \<open>
  The ids the service can list: the second segment of the name of a folder of some page
  of some folder listing, and the id of a project of some page of the project listing.
\<close>

definition listed_folder_id :: "api \<Rightarrow> string \<Rightarrow> bool" where
  "listed_folder_id a fid =
     (\<exists>t n tok response f. folders_list a t n tok = Inr response \<and>
        f \<in> set (folders_of response) \<and>
        index1 (split_on CHR ''/'' (folder_name f)) = Inr fid)"

definition listed_project_id :: "api \<Rightarrow> string \<Rightarrow> bool" where
  "listed_project_id a pid =
     (\<exists>t tok response p. projects_list a t tok = Inr response \<and>
        p \<in> set (projects_of response) \<and> projectId p = pid)"

text \<open>
  The three kinds of location: the organization column alone holds the organization id
  given to the run, or the folder column alone holds the id of a listed folder, or the
  project column alone holds the id of a listed project.
\<close>

definition sourced :: "api \<Rightarrow> string \<Rightarrow> location \<Rightarrow> bool" where
  "sourced a org_id loc =
     (case loc of (org, fol, prj) \<Rightarrow>
        (org = org_id \<and> fol = [] \<and> prj = []) \<or>
        (org = [] \<and> listed_folder_id a fol \<and> prj = []) \<or>
        (org = [] \<and> fol = [] \<and> listed_project_id a prj))"

text \<open>
  The rows of the three places: a row of the organization policy, a row of the policy
  of one of the folders \<open>fs\<close>, a row of the policy of one of the projects \<open>ps\<close>.
\<close>

definition org_row :: "string \<Rightarrow> row \<Rightarrow> bool" where
  "org_row org_id row = (row_location row = (org_id, [], []))"

definition folder_row :: "folder list \<Rightarrow> row \<Rightarrow> bool" where
  "folder_row fs row =
     list_ex (\<lambda>f. case index1 (split_on CHR ''/'' (folder_name f)) of
                     Inl e \<Rightarrow> False
                   | Inr fid \<Rightarrow> row_location row = ([], fid, [])) fs"

definition project_row :: "project list \<Rightarrow> row \<Rightarrow> bool" where
  "project_row ps row = list_ex (\<lambda>p. row_location row = ([], [], projectId p)) ps"

text \<open>
  The format of the folder names of the service: \<^verbatim>\<open>folders/\<close> and a non-empty id
  without a slash.
\<close>

definition folder_name_format :: "string \<Rightarrow> bool" where
  "folder_name_format n =
     (take 8 n = ''folders/'' \<and> drop 8 n \<noteq> [] \<and> CHR ''/'' \<notin> set (drop 8 n))"

text \<open>The state a run ends in, and the projects whose policy it has asked for.\<close>

definition outcome_state :: "outcome \<Rightarrow> state" where
  "outcome_state r = (case r of Inl (e, st) \<Rightarrow> st | Inr st \<Rightarrow> st)"

fun project_lookup :: "api_call \<times> bool \<Rightarrow> string list" where
  "project_lookup (ProjectsGetIamPolicy pid, ok) = [pid]"
| "project_lookup (c, ok) = []"

definition looked_up :: "state \<Rightarrow> string list" where
  "looked_up st = concat (map project_lookup (calls st))"

text \<open>
  Places of a run. The run has started in \<open>st\<close> when the organization was found and
  \<open>st\<close> is the state in which the listing of the projects has returned.
\<close>

definition started :: "api \<Rightarrow> string \<Rightarrow> organization \<Rightarrow> state \<Rightarrow> bool" where
  "started a org_id org st =
     (case execute (\<lambda>t. organizations_get a t (''organizations/'' @ org_id))
             (OrganizationsGet (''organizations/'' @ org_id))
             (print_out ''Validating organization...'' init_state) of
        (Inl e, st1) \<Rightarrow> False
      | (Inr org', st1) \<Rightarrow> org' = org \<and> get_projects a None st1 = Some (Inr st))"

text \<open>
  One turn of the outer loop of the walk that returns: a node is popped and all the
  pages of its children are processed.
\<close>

definition iteration :: "api \<Rightarrow> state \<Rightarrow> state \<Rightarrow> bool" where
  "iteration a st st' =
     (stack st \<noteq> [] \<and>
      list_children a (last (stack st)) None (st\<lparr>stack := butlast (stack st)\<rparr>) = Some (Inr st'))"

text \<open>
  One turn of the inner loop after which the loop goes on: the listing has failed and
  is executed again, or a page was processed and has a next page.
\<close>

definition attempt :: "api \<Rightarrow> string \<Rightarrow> string option \<times> state \<Rightarrow> string option \<times> state \<Rightarrow> bool" where
  \<open>attempt a current x y =
     (case x of (token, st) \<Rightarrow>
        (case execute (\<lambda>t. folders_list a t current token) (FoldersList current token)
                (print_out ''Getting folders...'' st) of
           (Inl (HttpError e), st1) \<Rightarrow>
             y = (token, print_err (''Error getting child folders of "'' @ current @ ''": '' @ e)
                           (st1\<lparr>ERROR := Some True\<rparr>))
         | (Inr response, st1) \<Rightarrow>
             (case process_folders a (folders_of response) st1 of
                Inl z \<Rightarrow> False
              | Inr st2 \<Rightarrow>
                  (case list_next (folders_nextPageToken response) of
                     None \<Rightarrow> False
                   | Some tok \<Rightarrow> y = (Some tok, st2)))))\<close>

section \<open>A small hierarchy to run the program on\<close>

text \<open>
  Organization 123 has the folders 1 and 999, folder 999 has the folder 2. Every node
  carries one binding of one member, named after the node.
\<close>

definition example_policy :: "string \<Rightarrow> policy" where
  "example_policy n = \<lparr>bindings = Some [\<lparr>role = ''roles/viewer'', members = Some [''user:'' @ n]\<rparr>]\<rparr>"

definition example_children :: "string \<Rightarrow> folder list" where
  "example_children n =
     (if n = ''organizations/123''
      then [\<lparr>folder_name = ''folders/1''\<rparr>, \<lparr>folder_name = ''folders/999''\<rparr>]
      else if n = ''folders/999'' then [\<lparr>folder_name = ''folders/2''\<rparr>]
      else [])"

definition example_projects :: "project list" where
  "example_projects =
     [\<lparr>projectId = ''p-org'', lifecycleState = ''ACTIVE'',
       project_parent = Some \<lparr>parent_id = Some ''123''\<rparr>\<rparr>,
      \<lparr>projectId = ''p-999'', lifecycleState = ''ACTIVE'',
       project_parent = Some \<lparr>parent_id = Some ''999''\<rparr>\<rparr>,
      \<lparr>projectId = ''p-2'', lifecycleState = ''ACTIVE'',
       project_parent = Some \<lparr>parent_id = Some ''2''\<rparr>\<rparr>,
      \<lparr>projectId = ''p-del'', lifecycleState = ''DELETE_REQUESTED'',
       project_parent = Some \<lparr>parent_id = Some ''2''\<rparr>\<rparr>,
      \<lparr>projectId = ''p-none'', lifecycleState = ''ACTIVE'', project_parent = None\<rparr>]"

definition example_api :: api where
  "example_api =
     \<lparr>organizations_get = (\<lambda>t n. Inr \<lparr>org_name = n\<rparr>),
      projects_list =
        (\<lambda>t tok. Inr \<lparr>resp_projects = Some example_projects, projects_nextPageToken = None\<rparr>),
      organizations_getIamPolicy = (\<lambda>t n. Inr (example_policy n)),
      folders_list =
        (\<lambda>t n tok. Inr \<lparr>resp_folders = Some (example_children n), folders_nextPageToken = None\<rparr>),
      folders_getIamPolicy = (\<lambda>t n. Inr (example_policy n)),
      projects_getIamPolicy = (\<lambda>t n. Inr (example_policy n)),
      open_w = (\<lambda>f. True)\<rparr>"

definition org_args :: args where
  "org_args = \<lparr>args_org_id = ''123'', args_folder = None, args_output = ''iam_members.csv''\<rparr>"

definition folder_args :: args where
  "folder_args = \<lparr>args_org_id = ''123'', args_folder = Some ''999'', args_output = ''iam_members.csv''\<rparr>"

text \<open>The policy of the first scenario of the specification, and a binding without members.\<close>

definition owner_policy :: policy where
  "owner_policy =
     \<lparr>bindings = Some [\<lparr>role = ''roles/owner'',
                        members = Some [''user:a@example.com'', ''group:g@example.com'']\<rparr>,
                      \<lparr>role = ''roles/viewer'', members = None\<rparr>]\<rparr>"

definition empty_binding :: binding where
  "empty_binding = \<lparr>role = ''roles/viewer'', members = Some []\<rparr>"

text \<open>The same service with one thing going wrong.\<close>

definition no_org_api :: api where
  "no_org_api = example_api\<lparr>organizations_get := (\<lambda>t n. Inl (HttpError ''404''))\<rparr>"

definition listing_denied_api :: api where
  "listing_denied_api = example_api\<lparr>folders_list := (\<lambda>t n tok. Inl (HttpError ''403''))\<rparr>"

definition folder_policy_denied_api :: api where
  "folder_policy_denied_api = example_api\<lparr>folders_getIamPolicy := (\<lambda>t n. Inl (HttpError ''403''))\<rparr>"

definition flaky_api :: api where
  "flaky_api =
     example_api\<lparr>folders_list :=
       (\<lambda>t n tok. if t < 4 then Inl (HttpError ''503'') else folders_list example_api t n tok)\<rparr>"

definition deleted_member_policy :: policy where
  "deleted_member_policy =
     \<lparr>bindings = Some [\<lparr>role = ''roles/owner'',
                        members = Some [''deleted:user:a@example.com?uid=1'']\<rparr>]\<rparr>"

definition deleted_member_api :: api where
  "deleted_member_api =
     example_api\<lparr>organizations_getIamPolicy := (\<lambda>t n. Inr deleted_member_policy)\<rparr>"

text \<open>
  The state in which the run on \<^verbatim>\<open>deleted_member_api\<close> is left by the exception, and
  services whose folder and project policies have the deleted member.
\<close>

definition crashed_state :: state where
  "crashed_state =
     \<lparr>ERROR = None, projects = example_projects, final_results = [], folders = {}, stack = [],
      stdout = [''Validating organization...'', ''Getting projects...''],
      stderr = [],
      calls = [(OrganizationsGet ''organizations/123'', True),
               (ProjectsList None, True),
               (OrganizationsGetIamPolicy ''organizations/123'', True)],
      written = None\<rparr>"

definition deleted_folder_member_api :: api where
  "deleted_folder_member_api =
     example_api\<lparr>folders_getIamPolicy := (\<lambda>t n. Inr deleted_member_policy)\<rparr>"

definition deleted_project_member_api :: api where
  "deleted_project_member_api =
     example_api\<lparr>projects_getIamPolicy := (\<lambda>t n. Inr deleted_member_policy)\<rparr>"

text \<open>
  Services that refuse the policy of the organization or of every project, and a state
  in the middle of a run whose flag is set already.
\<close>

definition org_policy_denied_api :: api where
  "org_policy_denied_api =
     example_api\<lparr>organizations_getIamPolicy := (\<lambda>t n. Inl (HttpError ''403''))\<rparr>"

definition project_policy_denied_api :: api where
  "project_policy_denied_api =
     example_api\<lparr>projects_getIamPolicy := (\<lambda>t n. Inl (HttpError ''403''))\<rparr>"

definition degraded_state :: state where
  "degraded_state =
     init_state\<lparr>ERROR := Some True, projects := example_projects, stack := [''folders/999'']\<rparr>"

text \<open>
  The state in which the projects of the example are listed, and services where the
  deleted member is in the policy of folder 2 only, which is listed in the second turn
  of the walk, by the listing that is executed again after the seventh call of the run,
  the first listing of the children of folder 999, has failed; or in the policy of
  project \<^verbatim>\<open>p-999\<close> only, which is the second project.
\<close>

definition listed_state :: state where
  "listed_state =
     \<lparr>ERROR = None, projects = example_projects, final_results = [], folders = {}, stack = [],
      stdout = [''Validating organization...'', ''Getting projects...''],
      stderr = [],
      calls = [(OrganizationsGet ''organizations/123'', True), (ProjectsList None, True)],
      written = None\<rparr>"

definition deleted_in_folder_2_api :: api where
  "deleted_in_folder_2_api =
     example_api\<lparr>folders_getIamPolicy :=
         (\<lambda>t n. Inr (if n = ''folders/2'' then deleted_member_policy else example_policy n)),
       folders_list :=
         (\<lambda>t n tok. if t = 6 then Inl (HttpError ''503'') else folders_list example_api t n tok)\<rparr>"

definition deleted_in_p_999_api :: api where
  "deleted_in_p_999_api =
     example_api\<lparr>projects_getIamPolicy :=
       (\<lambda>t n. Inr (if n = ''p-999'' then deleted_member_policy else example_policy n))\<rparr>"

section \<open>Splitting and flattening\<close>

lemma split_on_not_Nil: "split_on d s \<noteq> []"
  by (induction s) (auto simp: Let_def)

lemma length_split_on: "length (split_on d s) = Suc (count_list s d)"
  by (induction s) (auto simp: Let_def split_on_not_Nil)

lemma split_on_no_sep: "d \<notin> set s \<Longrightarrow> split_on d s = [s]"
  by (induction s) (auto simp: Let_def)

lemma split_on_first_sep: "d \<notin> set pre \<Longrightarrow> split_on d (pre @ d # rest) = pre # split_on d rest"
  by (induction pre) (auto simp: Let_def)

lemma count_list_0: "count_list s d = 0 \<Longrightarrow> d \<notin> set s"
  by (induction s) (auto split: if_splits)

lemma one_sep_decomp:
  "count_list s d = 1 \<Longrightarrow> \<exists>typ mem. s = typ @ d # mem \<and> d \<notin> set typ \<and> d \<notin> set mem"
proof (induction s)
  case Nil
  then show ?case by simp
next
  case (Cons c cs)
  show ?case
  proof (cases "c = d")
    case True
    with Cons.prems have "count_list cs d = 0" by simp
    then have "d \<notin> set cs" by (rule count_list_0)
    with True have "c # cs = [] @ d # cs \<and> d \<notin> set [] \<and> d \<notin> set cs" by simp
    then show ?thesis by blast
  next
    case False
    with Cons.prems have "count_list cs d = 1" by simp
    then obtain ty mem where "cs = ty @ d # mem" "d \<notin> set ty" "d \<notin> set mem"
      using Cons.IH by blast
    with False have "c # cs = (c # ty) @ d # mem \<and> d \<notin> set (c # ty) \<and> d \<notin> set mem" by simp
    then show ?thesis by blast
  qed
qed

lemma unpack2_two: "unpack2 [typ, mem] = Inr (typ, mem)"
  by (simp add: unpack2_def)

lemma unpack2_other: "length parts \<noteq> 2 \<Longrightarrow> unpack2 parts = Inl ValueError"
  by (auto simp: unpack2_def split: list.splits)

lemma split_one_colon:
  "one_colon member \<Longrightarrow>
   \<exists>typ mem. member = typ @ '':'' @ mem \<and> CHR '':'' \<notin> set typ \<and> CHR '':'' \<notin> set mem \<and>
     unpack2 (split_on CHR '':'' member) = Inr (typ, mem)"
proof -
  assume "one_colon member"
  then have "count_list member CHR '':'' = 1"
    by (simp add: one_colon_def)
  then obtain ty mem where d: "member = ty @ CHR '':'' # mem"
    and t: "CHR '':'' \<notin> set ty" and m: "CHR '':'' \<notin> set mem"
    using one_sep_decomp [of member "CHR '':''"] by auto
  have "split_on CHR '':'' (ty @ CHR '':'' # mem) = [ty, mem]"
    using t m by (simp add: split_on_first_sep split_on_no_sep)
  then have "unpack2 (split_on CHR '':'' member) = Inr (ty, mem)"
    unfolding d by (simp only: unpack2_two)
  moreover have "member = ty @ '':'' @ mem"
    unfolding d by simp
  ultimately show ?thesis
    using t m by (intro exI [of _ ty] exI [of _ mem]) simp
qed

lemma split_not_one_colon:
  "\<not> one_colon member \<Longrightarrow> unpack2 (split_on CHR '':'' member) = Inl ValueError"
  by (rule unpack2_other) (simp add: length_split_on one_colon_def)

lemma append_members_well_formed:
  "list_all one_colon ms \<Longrightarrow>
   \<exists>rows. append_members loc r ms rs = Inr (rs @ rows) \<and> length rows = length ms"
proof (induction ms arbitrary: rs)
  case Nil
  then show ?case by simp
next
  case (Cons m ms)
  then obtain ty mem where u: "unpack2 (split_on CHR '':'' m) = Inr (ty, mem)"
    using split_one_colon [of m] by auto
  from Cons obtain rows where
    "append_members loc r ms (rs @ [(mem, ty, r, loc)]) = Inr ((rs @ [(mem, ty, r, loc)]) @ rows)"
    "length rows = length ms"
    by fastforce
  with u have "append_members loc r (m # ms) rs = Inr (rs @ ((mem, ty, r, loc) # rows)) \<and>
    length ((mem, ty, r, loc) # rows) = length (m # ms)" by simp
  then show ?case by blast
qed

lemma append_bindings_well_formed:
  "list_all (\<lambda>b. list_all one_colon (members_of b)) bs \<Longrightarrow>
   \<exists>rows. append_bindings loc bs rs = Inr (rs @ rows) \<and>
     length rows = sum_list (map (\<lambda>b. length (members_of b)) bs)"
proof (induction bs arbitrary: rs)
  case Nil
  then show ?case by simp
next
  case (Cons b bs)
  then obtain rows1 where 1: "append_members loc (role b) (members_of b) rs = Inr (rs @ rows1)"
    "length rows1 = length (members_of b)"
    using append_members_well_formed by fastforce
  from Cons obtain rows2 where 2: "append_bindings loc bs (rs @ rows1) = Inr ((rs @ rows1) @ rows2)"
    "length rows2 = sum_list (map (\<lambda>b. length (members_of b)) bs)"
    by fastforce
  from 1 2 have "append_bindings loc (b # bs) rs = Inr (rs @ (rows1 @ rows2)) \<and>
    length (rows1 @ rows2) = sum_list (map (\<lambda>b. length (members_of b)) (b # bs))" by simp
  then show ?case by blast
qed

lemma append_members_length:
  "append_members loc r ms rs = Inr rs' \<Longrightarrow> length rs' = length rs + length ms"
  by (induction ms arbitrary: rs) (auto split: sum.splits)

lemma append_bindings_length:
  "append_bindings loc bs rs = Inr rs' \<Longrightarrow>
   length rs' = length rs + sum_list (map (\<lambda>b. length (members_of b)) bs)"
  by (induction bs arbitrary: rs) (auto split: sum.splits dest: append_members_length)

lemma append_members_bad:
  "\<not> list_all one_colon ms \<Longrightarrow> \<exists>rs'. append_members loc r ms rs = Inl (ValueError, rs')"
proof (induction ms arbitrary: rs)
  case Nil
  then show ?case by simp
next
  case (Cons m ms)
  show ?case
  proof (cases "one_colon m")
    case True
    then obtain ty mem where "unpack2 (split_on CHR '':'' m) = Inr (ty, mem)"
      using split_one_colon [of m] by auto
    moreover from True Cons.prems have "\<not> list_all one_colon ms" by simp
    ultimately show ?thesis using Cons.IH by simp
  next
    case False
    then show ?thesis by (simp add: split_not_one_colon)
  qed
qed

lemma append_bindings_bad:
  "\<not> list_all (\<lambda>b. list_all one_colon (members_of b)) bs \<Longrightarrow>
   \<exists>rs'. append_bindings loc bs rs = Inl (ValueError, rs')"
proof (induction bs arbitrary: rs)
  case Nil
  then show ?case by simp
next
  case (Cons b bs)
  show ?case
  proof (cases "list_all one_colon (members_of b)")
    case True
    then obtain rows where "append_members loc (role b) (members_of b) rs = Inr (rs @ rows)"
      using append_members_well_formed by blast
    moreover from True Cons.prems have "\<not> list_all (\<lambda>b. list_all one_colon (members_of b)) bs" by simp
    ultimately show ?thesis using Cons.IH by simp
  next
    case False
    then obtain rs' where "append_members loc (role b) (members_of b) rs = Inl (ValueError, rs')"
      using append_members_bad by blast
    then show ?thesis by simp
  qed
qed

subsection \<open>Flattening cardinality\<close>

text \<open>
  C8. Flattening a policy whose member strings all have exactly one colon does not raise
  and appends as many rows as the bindings have members in total, whatever the
  location; whenever flattening returns, that is the number of rows it has appended. A
  policy without bindings appends nothing, and a binding without members contributes
  no row.
\<close>

theorem flattening_cardinality:
  "(well_formed iam \<longrightarrow>
      (\<exists>rows. flatten loc iam rs = Inr (rs @ rows) \<and> length rows = member_count iam)) \<and>
   (flatten loc iam rs = Inr rs' \<longrightarrow> length rs' = length rs + member_count iam) \<and>
   (bindings_of iam = [] \<longrightarrow> flatten loc iam rs = Inr rs) \<and>
   (members_of b = [] \<longrightarrow> append_bindings loc (b # bs) rs = append_bindings loc bs rs)"
  using append_bindings_well_formed [of "bindings_of iam" loc rs]
    append_bindings_length [of loc "bindings_of iam" rs rs']
  by (simp add: well_formed_def flatten_def member_count_def)

theorem flattening_cardinality_witness:
  "well_formed owner_policy \<and>
   flatten (''123'', [], []) owner_policy [] =
     Inr [(''a@example.com'', ''user'', ''roles/owner'', ''123'', [], []),
          (''g@example.com'', ''group'', ''roles/owner'', ''123'', [], [])] \<and>
   member_count owner_policy = 2 \<and>
   bindings_of \<lparr>bindings = None\<rparr> = [] \<and>
   flatten ([], ''2'', []) \<lparr>bindings = None\<rparr> [] = Inr [] \<and>
   members_of empty_binding = [] \<and>
   append_bindings ([], [], ''p1'') (empty_binding # bindings_of owner_policy) [] =
     append_bindings ([], [], ''p1'') (bindings_of owner_policy) []"
proof -
  let ?rows = "[(''a@example.com'', ''user'', ''roles/owner'', ''123'', [], []),
                (''g@example.com'', ''group'', ''roles/owner'', ''123'', [], [])]"
  have wf: "well_formed owner_policy"
    by (simp add: well_formed_def owner_policy_def bindings_of_def members_of_def one_colon_def)
  have fl: "flatten (''123'', [], []) owner_policy [] =
     Inr [(''a@example.com'', ''user'', ''roles/owner'', ''123'', [], []),
          (''g@example.com'', ''group'', ''roles/owner'', ''123'', [], [])]"
    by (simp add: flatten_def owner_policy_def bindings_of_def members_of_def unpack2_def)
  have nb: "bindings_of \<lparr>bindings = None\<rparr> = []"
    by (simp add: bindings_of_def)
  have nm: "members_of empty_binding = []"
    by (simp add: members_of_def empty_binding_def)
  from flattening_cardinality [of owner_policy "(''123'', [], [])" "[]" ?rows]
  have "member_count owner_policy = 2"
    using wf fl by simp
  moreover from flattening_cardinality [of "\<lparr>bindings = None\<rparr>" "([], ''2'', [])" "[]"]
  have "flatten ([], ''2'', []) \<lparr>bindings = None\<rparr> [] = Inr []"
    using nb by blast
  moreover from flattening_cardinality [of _ "([], [], ''p1'')" "[]" _ empty_binding "bindings_of owner_policy"]
  have "append_bindings ([], [], ''p1'') (empty_binding # bindings_of owner_policy) [] =
     append_bindings ([], [], ''p1'') (bindings_of owner_policy) []"
    using nm by blast
  ultimately show ?thesis
    using wf fl nb nm by simp
qed

section \<open>What the phases keep\<close>

lemmas keeps_defs =
  keeps_def stable_def carried_def degraded_def flag_ok_def all_calls_succeeded_def rows_within_def

lemma keeps_refl: "keeps Q st (Inr st)"
  by (simp add: keeps_defs)

lemma keeps_step: "keeps Q st (Inr st1) \<Longrightarrow> keeps Q st1 r \<Longrightarrow> keeps Q st r"
  by (cases r) (auto simp: keeps_defs split: if_splits)

lemma keeps_raised: "keeps Q st (Inr st1) \<Longrightarrow> keeps Q st (Inl (e, st1))"
  by (simp add: keeps_defs)

lemma keeps_frame:
  "ERROR st1 = ERROR st \<Longrightarrow> calls st1 = calls st \<Longrightarrow> written st1 = written st \<Longrightarrow>
   final_results st1 = final_results st \<Longrightarrow> projects st1 = projects st \<Longrightarrow>
   keeps Q st (Inr st1)"
  by (simp add: keeps_defs)

lemma keeps_call_ok:
  "ERROR st1 = ERROR st \<Longrightarrow> calls st1 = calls st @ [(c, True)] \<Longrightarrow> written st1 = written st \<Longrightarrow>
   final_results st1 = final_results st \<Longrightarrow> projects st1 = projects st \<Longrightarrow>
   keeps Q st (Inr st1)"
  by (simp add: keeps_defs)

lemma keeps_call_failed:
  "ERROR st1 = Some True \<Longrightarrow> calls st1 = calls st @ [(c, False)] \<Longrightarrow> written st1 = written st \<Longrightarrow>
   final_results st1 = final_results st \<Longrightarrow> projects st1 = projects st \<Longrightarrow>
   keeps Q st (Inr st1)"
  by (simp add: keeps_defs)

lemma execute_ok:
  "execute req c st = (Inr v, st1) \<Longrightarrow> st1 = st\<lparr>calls := calls st @ [(c, True)]\<rparr>"
  by (auto simp: execute_def succeeded_def Let_def)

lemma execute_failed:
  "execute req c st = (Inl e, st1) \<Longrightarrow> st1 = st\<lparr>calls := calls st @ [(c, False)]\<rparr>"
  by (auto simp: execute_def succeeded_def Let_def)

lemma execute_answer:
  "execute req c st = (r, st1) \<Longrightarrow> r = req (length (calls st))"
  by (auto simp: execute_def Let_def)

lemma append_members_within:
  "list_all P rs \<Longrightarrow> (\<And>m t. P (m, t, r, loc)) \<Longrightarrow>
   (case append_members loc r ms rs of Inl (e, rs') \<Rightarrow> list_all P rs' | Inr rs' \<Rightarrow> list_all P rs')"
proof (induction ms arbitrary: rs)
  case Nil
  then show ?case by simp
next
  case (Cons m ms)
  show ?case
  proof (cases "unpack2 (split_on CHR '':'' m)")
    case (Inl e)
    with Cons.prems show ?thesis by simp
  next
    case (Inr tm)
    obtain ty mem where tm: "tm = (ty, mem)" by (cases tm)
    from Cons.prems have "list_all P (rs @ [(mem, ty, r, loc)])" by simp
    then have "case append_members loc r ms (rs @ [(mem, ty, r, loc)]) of
                 Inl (e, rs') \<Rightarrow> list_all P rs' | Inr rs' \<Rightarrow> list_all P rs'"
      using Cons.prems(2) by (rule Cons.IH)
    with Inr tm show ?thesis by simp
  qed
qed

lemma append_bindings_within:
  "list_all P rs \<Longrightarrow> (\<And>m t r. P (m, t, r, loc)) \<Longrightarrow>
   (case append_bindings loc bs rs of Inl (e, rs') \<Rightarrow> list_all P rs' | Inr rs' \<Rightarrow> list_all P rs')"
proof (induction bs arbitrary: rs)
  case Nil
  then show ?case by simp
next
  case (Cons b bs)
  from Cons.prems
  have 1: "case append_members loc (role b) (members_of b) rs of
          Inl (e, rs') \<Rightarrow> list_all P rs' | Inr rs' \<Rightarrow> list_all P rs'"
    by (intro append_members_within) auto
  show ?case
  proof (cases "append_members loc (role b) (members_of b) rs")
    case (Inl x)
    with 1 show ?thesis by (simp split: prod.splits)
  next
    case (Inr rs1)
    with 1 have "list_all P rs1" by simp
    then have "case append_bindings loc bs rs1 of
                 Inl (e, rs') \<Rightarrow> list_all P rs' | Inr rs' \<Rightarrow> list_all P rs'"
      using Cons.prems(2) by (rule Cons.IH)
    with Inr show ?thesis by simp
  qed
qed

lemma flatten_into_keeps: "Q loc \<Longrightarrow> keeps Q st (flatten_into loc iam st)"
  using append_bindings_within [of "\<lambda>r. Q (row_location r)" "final_results st" loc "bindings_of iam"]
  by (auto simp: flatten_into_def flatten_def keeps_defs row_location_def split: sum.splits)

lemma org_policy_keeps:
  assumes "Q (org_id, [], [])"
  shows "keeps Q st (org_policy a org_id folder_id org st)"
proof -
  obtain r st1 where ex: "execute (\<lambda>t. organizations_getIamPolicy a t (org_name org))
             (OrganizationsGetIamPolicy (org_name org)) st = (r, st1)"
    by (cases "execute (\<lambda>t. organizations_getIamPolicy a t (org_name org))
             (OrganizationsGetIamPolicy (org_name org)) st")
  show ?thesis
  proof (cases r)
    case (Inl e)
    with ex have "st1 = st\<lparr>calls := calls st @ [(OrganizationsGetIamPolicy (org_name org), False)]\<rparr>"
      by (auto dest: execute_failed)
    with ex Inl show ?thesis
      by (cases e) (simp add: org_policy_def print_err_def keeps_call_failed)
  next
    case (Inr iam)
    with ex have "st1 = st\<lparr>calls := calls st @ [(OrganizationsGetIamPolicy (org_name org), True)]\<rparr>"
      by (auto dest: execute_ok)
    then have "keeps Q st (Inr st1)"
      by (simp add: keeps_call_ok)
    then have "keeps Q st (flatten_into (org_id, [], []) iam st1)"
      using flatten_into_keeps [of Q "(org_id, [], [])", OF assms] by (rule keeps_step)
    with ex Inr show ?thesis
      by (simp add: org_policy_def)
  qed
qed

lemma process_folders_keeps:
  "list_all (folder_within Q) fs \<Longrightarrow> keeps Q st (process_folders a fs st)"
proof (induction fs arbitrary: st)
  case Nil
  show ?case by (simp add: keeps_refl)
next
  case (Cons f rest)
  from Cons.prems have rest: "list_all (folder_within Q) rest" by simp
  show ?case
  proof (cases "index1 (split_on CHR ''/'' (folder_name f))")
    case (Inl e)
    then show ?thesis by (simp add: keeps_raised keeps_refl)
  next
    case (Inr fid)
    with Cons.prems have q: "Q ([], fid, [])" by (simp add: folder_within_def)
    let ?st0 = "st\<lparr>stack := stack st @ [folder_name f], folders := insert fid (folders st)\<rparr>"
    obtain r st1 where ex: "execute (\<lambda>t. folders_getIamPolicy a t (folder_name f))
                  (FoldersGetIamPolicy (folder_name f)) ?st0 = (r, st1)"
      by (cases "execute (\<lambda>t. folders_getIamPolicy a t (folder_name f))
                  (FoldersGetIamPolicy (folder_name f)) ?st0")
    show ?thesis
    proof (cases r)
      case (Inl e)
      then obtain m where e: "e = HttpError m" by (cases e) simp
      let ?st2 = "print_out (''Error getting folder '' @ [CHR 0x22] @ fid @ '' IAM: '' @ m) (st1\<lparr>ERROR := Some True\<rparr>)"
      from ex Inl have "st1 = ?st0\<lparr>calls := calls ?st0 @ [(FoldersGetIamPolicy (folder_name f), False)]\<rparr>"
        by (auto dest: execute_failed)
      then have "keeps Q st (Inr ?st2)"
        by (simp add: print_out_def keeps_call_failed)
      then have "keeps Q st (process_folders a rest ?st2)"
        using Cons.IH [OF rest] by (rule keeps_step)
      with ex Inl e Inr show ?thesis by simp
    next
      case iam: (Inr iam)
      from ex iam have "st1 = ?st0\<lparr>calls := calls ?st0 @ [(FoldersGetIamPolicy (folder_name f), True)]\<rparr>"
        by (auto dest: execute_ok)
      then have 1: "keeps Q st (Inr st1)"
        by (simp add: keeps_call_ok)
      show ?thesis
      proof (cases "flatten_into ([], fid, []) iam st1")
        case (Inl x)
        with 1 flatten_into_keeps [of Q "([], fid, [])" st1 iam, OF q] have "keeps Q st (Inl x)"
          by (metis keeps_step)
        with ex iam Inr Inl show ?thesis by simp
      next
        case st2: (Inr st2)
        with flatten_into_keeps [of Q "([], fid, [])" st1 iam, OF q] have "keeps Q st1 (Inr st2)"
          by simp
        with 1 have "keeps Q st (Inr st2)" by (rule keeps_step)
        then have "keeps Q st (process_folders a rest st2)"
          using Cons.IH [OF rest] by (rule keeps_step)
        with ex iam Inr st2 show ?thesis by simp
      qed
    qed
  qed
qed

lemma lists_within_folders:
  "lists_within Q a \<Longrightarrow> folders_list a t n tok = Inr response \<Longrightarrow>
   list_all (folder_within Q) (folders_of response)"
proof -
  assume "lists_within Q a" and r: "folders_list a t n tok = Inr response"
  then have "case folders_list a t n tok of Inl e \<Rightarrow> True
             | Inr response \<Rightarrow> list_all (folder_within Q) (folders_of response)"
    unfolding lists_within_def by (elim conjE allE)
  with r show ?thesis by simp
qed

lemma lists_within_projects:
  "lists_within Q a \<Longrightarrow> projects_list a t tok = Inr response \<Longrightarrow>
   list_all (project_within Q) (projects_of response)"
proof -
  assume "lists_within Q a" and r: "projects_list a t tok = Inr response"
  then have "case projects_list a t tok of Inl e \<Rightarrow> True
             | Inr response \<Rightarrow> list_all (project_within Q) (projects_of response)"
    unfolding lists_within_def by (elim conjE allE)
  with r show ?thesis by simp
qed

lemma list_children_keeps:
  "list_children a current token st = Some r \<Longrightarrow> lists_within Q a \<Longrightarrow> keeps Q st r"
proof (induction rule: list_children.raw_induct [rotated 1, consumes 1])
  case (1 list_children' a current token st r)
  let ?st0 = "print_out ''Getting folders...'' st"
  obtain x st1 where ex: "execute (\<lambda>t. folders_list a t current token) (FoldersList current token) ?st0 = (x, st1)"
    by (cases "execute (\<lambda>t. folders_list a t current token) (FoldersList current token) ?st0")
  show ?case
  proof (cases x)
    case (Inl e)
    then obtain m where e: "e = HttpError m" by (cases e) simp
    let ?st2 = "print_err (''Error getting child folders of '' @ [CHR 0x22] @ current @ [CHR 0x22] @ '': '' @ m)
                  (st1\<lparr>ERROR := Some True\<rparr>)"
    from ex Inl have "st1 = ?st0\<lparr>calls := calls ?st0 @ [(FoldersList current token, False)]\<rparr>"
      by (auto dest: execute_failed)
    then have k: "keeps Q st (Inr ?st2)"
      by (simp add: print_out_def print_err_def keeps_call_failed)
    from "1.hyps" ex Inl e have "list_children' a current token ?st2 = Some r"
      by simp
    then have "keeps Q ?st2 r"
      using "1.prems" by (rule "1.IH")
    with k show ?thesis by (rule keeps_step)
  next
    case (Inr response)
    from ex Inr have st1: "st1 = ?st0\<lparr>calls := calls ?st0 @ [(FoldersList current token, True)]\<rparr>"
      by (auto dest: execute_ok)
    then have k: "keeps Q st (Inr st1)"
      by (simp add: print_out_def keeps_call_ok)
    from ex have "x = folders_list a (length (calls ?st0)) current token"
      by (rule execute_answer)
    with Inr "1.prems" have "list_all (folder_within Q) (folders_of response)"
      by (auto intro: lists_within_folders)
    then have pf: "keeps Q st1 (process_folders a (folders_of response) st1)"
      by (rule process_folders_keeps)
    show ?thesis
    proof (cases "process_folders a (folders_of response) st1")
      case (Inl y)
      with "1.hyps" ex Inr have "r = Inl y" by simp
      with pf Inl k show ?thesis by (metis keeps_step)
    next
      case st2: (Inr st2)
      with pf k have k2: "keeps Q st (Inr st2)" by (metis keeps_step)
      show ?thesis
      proof (cases "list_next (folders_nextPageToken response)")
        case None
        with "1.hyps" ex Inr st2 have "r = Inr st2" by simp
        with k2 show ?thesis by simp
      next
        case (Some tok)
        with "1.hyps" ex Inr st2 have "list_children' a current (Some tok) st2 = Some r" by simp
        then have "keeps Q st2 r"
          using "1.prems" by (rule "1.IH")
        with k2 show ?thesis by (rule keeps_step)
      qed
    qed
  qed
qed

lemma walk_keeps:
  "walk a st = Some r \<Longrightarrow> lists_within Q a \<Longrightarrow> keeps Q st r"
proof (induction rule: walk.raw_induct [rotated 1, consumes 1])
  case (1 walk' a st r)
  show ?case
  proof (cases "stack st = []")
    case True
    with "1.hyps" show ?thesis by (auto simp: keeps_refl)
  next
    case False
    let ?st0 = "st\<lparr>stack := butlast (stack st)\<rparr>"
    have k0: "keeps Q st (Inr ?st0)" by (simp add: keeps_frame)
    from False "1.hyps" obtain x where
      lc: "list_children a (last (stack st)) None ?st0 = Some x" and
      rest: "(case x of Inl y \<Rightarrow> Some (Inl y) | Inr st1 \<Rightarrow> walk' a st1) = Some r"
      by (auto simp: bind_eq_Some_conv)
    from lc "1.prems" have kx: "keeps Q ?st0 x" by (rule list_children_keeps)
    show ?thesis
    proof (cases x)
      case (Inl y)
      with rest kx k0 show ?thesis by (metis keeps_step option.inject sum.simps(5))
    next
      case (Inr st1)
      with rest have "walk' a st1 = Some r" by simp
      then have "keeps Q st1 r" using "1.prems" by (rule "1.IH")
      with kx k0 Inr show ?thesis by (metis keeps_step)
    qed
  qed
qed

lemma keeps_raised_frame:
  "ERROR st1 = ERROR st \<Longrightarrow> written st1 = written st \<Longrightarrow>
   final_results st1 = final_results st \<Longrightarrow> projects st1 = projects st \<Longrightarrow>
   keeps Q st (Inl (e, st1))"
  by (simp add: keeps_defs)

lemma keeps_listed:
  "ERROR st1 = ERROR st \<Longrightarrow> calls st1 = calls st @ [(c, True)] \<Longrightarrow> written st1 = written st \<Longrightarrow>
   final_results st1 = final_results st \<Longrightarrow> projects st1 = projects st @ ps \<Longrightarrow>
   list_all (project_within Q) ps \<Longrightarrow> keeps Q st (Inr st1)"
  by (simp add: keeps_defs)

lemma get_projects_keeps:
  "get_projects a token st = Some r \<Longrightarrow> lists_within Q a \<Longrightarrow> keeps Q st r"
proof (induction rule: get_projects.raw_induct [rotated 1, consumes 1])
  case (1 get_projects' a token st r)
  let ?st0 = "print_out ''Getting projects...'' st"
  obtain x st1 where ex: "execute (\<lambda>t. projects_list a t token) (ProjectsList token) ?st0 = (x, st1)"
    by (cases "execute (\<lambda>t. projects_list a t token) (ProjectsList token) ?st0")
  show ?case
  proof (cases x)
    case (Inl e)
    from ex Inl have "st1 = ?st0\<lparr>calls := calls ?st0 @ [(ProjectsList token, False)]\<rparr>"
      by (auto dest: execute_failed)
    then have "keeps Q st (Inl (Uncaught e, st1))"
      by (simp add: print_out_def keeps_raised_frame)
    moreover from "1.hyps" ex Inl have "r = Inl (Uncaught e, st1)" by simp
    ultimately show ?thesis by simp
  next
    case (Inr response)
    let ?st2 = "st1\<lparr>projects := projects st1 @ projects_of response\<rparr>"
    from ex Inr have st1: "st1 = ?st0\<lparr>calls := calls ?st0 @ [(ProjectsList token, True)]\<rparr>"
      by (auto dest: execute_ok)
    from ex have "x = projects_list a (length (calls ?st0)) token"
      by (rule execute_answer)
    with Inr "1.prems" have "list_all (project_within Q) (projects_of response)"
      by (auto intro: lists_within_projects)
    with st1 have k: "keeps Q st (Inr ?st2)"
      by (intro keeps_listed [where ps = "projects_of response" and c = "ProjectsList token"])
         (simp_all add: print_out_def)
    show ?thesis
    proof (cases "list_next (projects_nextPageToken response)")
      case None
      with "1.hyps" ex Inr have "r = Inr ?st2" by (simp add: projects_of_def)
      with k show ?thesis by simp
    next
      case (Some tok)
      with "1.hyps" ex Inr have "get_projects' a (Some tok) ?st2 = Some r"
        by (simp add: projects_of_def)
      then have "keeps Q ?st2 r"
        using "1.prems" by (rule "1.IH")
      with k show ?thesis by (rule keeps_step)
    qed
  qed
qed

lemma process_projects_keeps:
  "list_all (project_within Q) ps \<Longrightarrow> keeps Q st (process_projects a org_id ps st)"
proof (induction ps arbitrary: st)
  case Nil
  show ?case by (simp add: keeps_refl)
next
  case (Cons p rest)
  from Cons.prems have rest: "list_all (project_within Q) rest"
    by simp
  from Cons.prems have q: "Q ([], [], projectId p)"
    by (simp add: project_within_def)
  show ?case
  proof (cases "selected org_id (folders st) p")
    case False
    with Cons.IH [OF rest] show ?thesis by simp
  next
    case True
    obtain r st1 where ex: "execute (\<lambda>t. projects_getIamPolicy a t (projectId p))
                    (ProjectsGetIamPolicy (projectId p)) st = (r, st1)"
      by (cases "execute (\<lambda>t. projects_getIamPolicy a t (projectId p))
                    (ProjectsGetIamPolicy (projectId p)) st")
    show ?thesis
    proof (cases r)
      case (Inl e)
      then obtain m where e: "e = HttpError m" by (cases e) simp
      let ?st2 = "print_err (''Error getting project IAM: '' @ m) (st1\<lparr>ERROR := Some True\<rparr>)"
      from ex Inl have "st1 = st\<lparr>calls := calls st @ [(ProjectsGetIamPolicy (projectId p), False)]\<rparr>"
        by (auto dest: execute_failed)
      then have "keeps Q st (Inr ?st2)"
        by (simp add: print_err_def keeps_call_failed)
      then have "keeps Q st (process_projects a org_id rest ?st2)"
        using Cons.IH [OF rest] by (rule keeps_step)
      with ex Inl e True show ?thesis by simp
    next
      case iam: (Inr iam)
      from ex iam have "st1 = st\<lparr>calls := calls st @ [(ProjectsGetIamPolicy (projectId p), True)]\<rparr>"
        by (auto dest: execute_ok)
      then have 1: "keeps Q st (Inr st1)"
        by (simp add: keeps_call_ok)
      show ?thesis
      proof (cases "flatten_into ([], [], projectId p) iam st1")
        case (Inl x)
        with 1 flatten_into_keeps [of Q "([], [], projectId p)" st1 iam, OF q] have "keeps Q st (Inl x)"
          by (metis keeps_step)
        with ex iam True Inl show ?thesis by simp
      next
        case st2: (Inr st2)
        with flatten_into_keeps [of Q "([], [], projectId p)" st1 iam, OF q] have "keeps Q st1 (Inr st2)"
          by simp
        with 1 have "keeps Q st (Inr st2)" by (rule keeps_step)
        then have "keeps Q st (process_projects a org_id rest st2)"
          using Cons.IH [OF rest] by (rule keeps_step)
        with ex iam True st2 show ?thesis by simp
      qed
    qed
  qed
qed

lemma set_parent_keeps:
  assumes "Q (org_id, [], [])"
  shows "keeps Q st (set_parent a org_id folder_id org st)"
proof (cases "truthy folder_id")
  case True
  then show ?thesis by (simp add: set_parent_def keeps_frame)
next
  case False
  have k: "keeps Q st (org_policy a org_id folder_id org st)"
    using assms by (rule org_policy_keeps)
  show ?thesis
  proof (cases "org_policy a org_id folder_id org st")
    case (Inl x)
    with k False show ?thesis by (simp add: set_parent_def)
  next
    case (Inr st1)
    have "keeps Q st1 (Inr (st1\<lparr>folders := {}, stack := [org_name org]\<rparr>))"
      by (simp add: keeps_frame)
    with k Inr have "keeps Q st (Inr (st1\<lparr>folders := {}, stack := [org_name org]\<rparr>))"
      by (metis keeps_step)
    with Inr False show ?thesis by (simp add: set_parent_def)
  qed
qed

lemma write_file_returns:
  "write_file a filename st = Inr st' \<Longrightarrow>
   written st' = Some (header # final_results st) \<and> ERROR st' = ERROR st \<and>
   calls st' = calls st \<and> final_results st' = final_results st"
  by (auto simp: write_file_def print_out_def Let_def split: if_splits)

lemma write_file_raises:
  "write_file a filename st = Inl (e, st') \<Longrightarrow>
   e = OSError \<and> written st' = written st \<and> ERROR st' = ERROR st \<and>
   calls st' = calls st \<and> final_results st' = final_results st"
  by (auto simp: write_file_def print_out_def Let_def split: if_splits)

text \<open>A state before the writing of the file, with rows and projects within \<open>Q\<close>.\<close>

lemma keeps_returned:
  assumes "keeps Q st (Inr st')"
    and "written st = None" and "rows_within Q st"
    and "list_all (project_within Q) (projects st)" and "flag_ok st"
  shows "written st' = None \<and> rows_within Q st' \<and>
         list_all (project_within Q) (projects st') \<and> flag_ok st'"
  using assms by (auto simp: keeps_def stable_def carried_def)

lemma keeps_raised_state:
  assumes "keeps Q st (Inl (e, st'))"
    and "written st = None" and "rows_within Q st"
  shows "written st' = None \<and> rows_within Q st'"
  using assms by (auto simp: keeps_def stable_def carried_def)

lemma after_walk_summary:
  assumes w: "written st = None" "rows_within Q st"
    "list_all (project_within Q) (projects st)" "flag_ok st"
  shows "case after_walk a org_id filename (Inr st) of
           Inl (e, st') \<Rightarrow> written st' = None \<and> rows_within Q st'
         | Inr st' \<Rightarrow> written st' = Some (header # final_results st') \<and> rows_within Q st' \<and> flag_ok st'"
proof -
  let ?st0 = "print_out ''Processing results...'' st"
  have st0: "written ?st0 = None" "rows_within Q ?st0"
    "list_all (project_within Q) (projects ?st0)" "flag_ok ?st0"
    using w by (simp_all add: print_out_def rows_within_def flag_ok_def all_calls_succeeded_def)
  have ps: "projects ?st0 = projects st" by (simp add: print_out_def)
  from st0(3) have k: "keeps Q ?st0 (process_projects a org_id (projects st) ?st0)"
    unfolding ps by (rule process_projects_keeps)
  show ?thesis
  proof (cases "process_projects a org_id (projects st) ?st0")
    case (Inl x)
    obtain e st' where x: "x = (e, st')" by (cases x)
    from k Inl x st0 have "written st' = None \<and> rows_within Q st'"
      by (auto dest: keeps_raised_state)
    with Inl x show ?thesis by (simp add: after_walk_def)
  next
    case (Inr st1)
    with k st0 have st1: "written st1 = None \<and> rows_within Q st1 \<and>
         list_all (project_within Q) (projects st1) \<and> flag_ok st1"
      by (auto dest: keeps_returned)
    show ?thesis
    proof (cases "write_file a filename st1")
      case (Inl y)
      obtain e st' where y: "y = (e, st')" by (cases y)
      from Inl y have "written st' = written st1 \<and> final_results st' = final_results st1"
        by (auto dest: write_file_raises)
      with st1 have "written st' = None \<and> rows_within Q st'"
        by (simp add: rows_within_def)
      with Inr Inl y show ?thesis by (simp add: after_walk_def)
    next
      case st2: (Inr st2)
      then have "written st2 = Some (header # final_results st1) \<and> ERROR st2 = ERROR st1 \<and>
                 calls st2 = calls st1 \<and> final_results st2 = final_results st1"
        by (rule write_file_returns)
      with st1 have "written st2 = Some (header # final_results st2) \<and> rows_within Q st2 \<and> flag_ok st2"
        by (simp add: rows_within_def flag_ok_def all_calls_succeeded_def)
      with Inr st2 show ?thesis by (simp add: after_walk_def)
    qed
  qed
qed

lemma after_projects_summary:
  assumes r: "after_projects a org_id folder_id filename org (Inr st) = Some r"
    and a: "lists_within Q a" and q: "Q (org_id, [], [])"
    and w: "written st = None" "rows_within Q st"
      "list_all (project_within Q) (projects st)" "flag_ok st"
  shows "case r of
           Inl (e, st') \<Rightarrow> written st' = None \<and> rows_within Q st'
         | Inr st' \<Rightarrow> written st' = Some (header # final_results st') \<and> rows_within Q st' \<and> flag_ok st'"
proof -
  have k: "keeps Q st (set_parent a org_id folder_id org st)"
    using q by (rule set_parent_keeps)
  show ?thesis
  proof (cases "set_parent a org_id folder_id org st")
    case (Inl x)
    obtain e st' where x: "x = (e, st')" by (cases x)
    from k Inl x w have "written st' = None \<and> rows_within Q st'"
      by (auto dest: keeps_raised_state)
    moreover from r Inl x have "r = Inl (e, st')" by (simp add: after_projects_def)
    ultimately show ?thesis by simp
  next
    case (Inr st1)
    with k w have st1: "written st1 = None \<and> rows_within Q st1 \<and>
         list_all (project_within Q) (projects st1) \<and> flag_ok st1"
      by (auto dest: keeps_returned)
    from r Inr obtain x where wk: "walk a st1 = Some x" and rx: "r = after_walk a org_id filename x"
      by (auto simp: after_projects_def)
    from wk a have kx: "keeps Q st1 x" by (rule walk_keeps)
    show ?thesis
    proof (cases x)
      case (Inl y)
      obtain e st' where y: "y = (e, st')" by (cases y)
      from kx Inl y st1 have "written st' = None \<and> rows_within Q st'"
        by (auto dest: keeps_raised_state)
      with rx Inl y show ?thesis by (simp add: after_walk_def)
    next
      case st2: (Inr st2)
      with kx st1 have "written st2 = None \<and> rows_within Q st2 \<and>
         list_all (project_within Q) (projects st2) \<and> flag_ok st2"
        by (auto dest: keeps_returned)
      then show ?thesis
        unfolding rx st2 by (intro after_walk_summary) simp_all
    qed
  qed
qed

lemma run_summary:
  assumes r: "run a org_id folder_id filename = Some r"
    and a: "lists_within Q a" and q: "Q (org_id, [], [])"
  shows "case r of
           Inl (e, st') \<Rightarrow> written st' = None \<and> rows_within Q st'
         | Inr st' \<Rightarrow> written st' = Some (header # final_results st') \<and> rows_within Q st' \<and> flag_ok st'"
proof -
  let ?st0 = "print_out ''Validating organization...'' init_state"
  let ?c = "OrganizationsGet (''organizations/'' @ org_id)"
  obtain x st1 where ex: "execute (\<lambda>t. organizations_get a t (''organizations/'' @ org_id)) ?c ?st0 = (x, st1)"
    by (cases "execute (\<lambda>t. organizations_get a t (''organizations/'' @ org_id)) ?c ?st0")
  show ?thesis
  proof (cases x)
    case (Inl e)
    then obtain m where e: "e = HttpError m" by (cases e) simp
    from ex Inl have st1: "st1 = ?st0\<lparr>calls := calls ?st0 @ [(?c, False)]\<rparr>"
      by (auto dest: execute_failed)
    from r ex Inl e have "r = Inl (SystemExit (''Error getting organization: '' @ m), st1)"
      by (simp add: run_def)
    with st1 show ?thesis
      by (simp add: print_out_def init_state_def rows_within_def)
  next
    case (Inr org)
    from ex Inr have "st1 = ?st0\<lparr>calls := calls ?st0 @ [(?c, True)]\<rparr>"
      by (auto dest: execute_ok)
    then have st1: "written st1 = None" "rows_within Q st1"
      "list_all (project_within Q) (projects st1)" "flag_ok st1"
      by (simp_all add: print_out_def init_state_def rows_within_def flag_ok_def all_calls_succeeded_def)
    from r ex Inr obtain y where gp: "get_projects a None st1 = Some y"
      and ry: "after_projects a org_id folder_id filename org y = Some r"
      by (auto simp: run_def bind_eq_Some_conv)
    from gp a have ky: "keeps Q st1 y" by (rule get_projects_keeps)
    show ?thesis
    proof (cases y)
      case (Inl z)
      obtain e st' where z: "z = (e, st')" by (cases z)
      from ky Inl z st1 have "written st' = None \<and> rows_within Q st'"
        by (auto dest: keeps_raised_state)
      moreover from ry Inl z have "r = Inl (e, st')" by (simp add: after_projects_def)
      ultimately show ?thesis by simp
    next
      case st2: (Inr st2)
      with ky st1 have "written st2 = None \<and> rows_within Q st2 \<and>
         list_all (project_within Q) (projects st2) \<and> flag_ok st2"
        by (auto dest: keeps_returned)
      with ry a q show ?thesis
        unfolding st2 by (intro after_projects_summary [of a org_id folder_id filename org st2 r Q]) simp_all
    qed
  qed
qed

section \<open>The join of projects and folders\<close>

text \<open>
  C1, evaluated on the example with the restriction to folder 999: the project
  \<^verbatim>\<open>p-org\<close>, whose parent is the organization, is selected although the folder
  restriction is given, and its policy is asked for and reported. The condition of the
  source has no conjunct for the restriction.
\<close>

theorem restricted_run_selects_organization_project:
  "truthy (args_folder folder_args) \<and>
   map_option (folders \<circ> snd) (main example_api folder_args) = Some {''2''} \<and>
   selected (args_org_id folder_args) {''2''} (hd example_projects) \<and>
   map_option (looked_up \<circ> snd) (main example_api folder_args) = Some [''p-org'', ''p-2'']"
  by code_simp

text \<open>
  C2, evaluated on the same run: the walk starts from folder 999 and lists its children
  only. The policy of folder 999 itself is never asked for, its id is not among the
  folder ids of the walk, and the active project \<^verbatim>\<open>p-999\<close>, whose parent it is, is not
  selected.
\<close>

theorem restricted_run_omits_root_folder:
  "map_option (calls \<circ> snd) (main example_api folder_args) =
     Some [(OrganizationsGet ''organizations/123'', True),
           (ProjectsList None, True),
           (FoldersList ''folders/999'' None, True),
           (FoldersGetIamPolicy ''folders/2'', True),
           (FoldersList ''folders/2'' None, True),
           (ProjectsGetIamPolicy ''p-org'', True),
           (ProjectsGetIamPolicy ''p-2'', True)] \<and>
   map_option (folders \<circ> snd) (main example_api folder_args) = Some {''2''} \<and>
   map_option (final_results \<circ> snd) (main example_api folder_args) =
     Some [(''folders/2'', ''user'', ''roles/viewer'', [], ''2'', []),
           (''p-org'', ''user'', ''roles/viewer'', [], [], ''p-org''),
           (''p-2'', ''user'', ''roles/viewer'', [], [], ''p-2'')]"
  by code_simp

section \<open>A listing that keeps failing\<close>

lemma list_children_returns_listed:
  "list_children a current token st = Some r \<Longrightarrow>
   \<exists>t response. folders_list a t current token = Inr response"
proof (induction rule: list_children.raw_induct [rotated 1, consumes 1])
  case (1 list_children' a current token st r)
  let ?st0 = "print_out ''Getting folders...'' st"
  obtain x st1 where ex: "execute (\<lambda>t. folders_list a t current token) (FoldersList current token) ?st0 = (x, st1)"
    by (cases "execute (\<lambda>t. folders_list a t current token) (FoldersList current token) ?st0")
  show ?case
  proof (cases x)
    case (Inl e)
    then obtain m where e: "e = HttpError m" by (cases e) simp
    from "1.hyps" ex Inl e
    have "list_children' a current token
            (print_err (''Error getting child folders of '' @ [CHR 0x22] @ current @ [CHR 0x22] @ '': '' @ m)
               (st1\<lparr>ERROR := Some True\<rparr>)) = Some r"
      by simp
    then show ?thesis by (rule "1.IH")
  next
    case (Inr response)
    from ex have "x = folders_list a (length (calls ?st0)) current token"
      by (rule execute_answer)
    with Inr show ?thesis by metis
  qed
qed

lemma list_children_never_returns:
  assumes "\<And>t. \<exists>e. folders_list a t current token = Inl e"
  shows "list_children a current token st = None"
proof (cases "list_children a current token st")
  case None
  then show ?thesis .
next
  case (Some r)
  then obtain t response where "folders_list a t current token = Inr response"
    using list_children_returns_listed by blast
  with assms [of t] show ?thesis by simp
qed

lemma walk_never_returns:
  assumes "\<And>t. \<exists>e. folders_list a t (last (stack st)) None = Inl e" and "stack st \<noteq> []"
  shows "walk a st = None"
proof -
  have "list_children a (last (stack st)) None (st\<lparr>stack := butlast (stack st)\<rparr>) = None"
    using assms(1) by (rule list_children_never_returns)
  with assms(2) show ?thesis
    by (subst walk.simps) simp
qed

text \<open>
  C3, evaluated on a service that refuses every listing of child folders: the run does
  not return. The handler of the failed listing continues the loop over the pages of the
  same node with the same request, so a listing that fails every time is executed
  again and again, and the walk reaches no other entry of the stack.
\<close>

theorem persistent_listing_failure_never_returns:
  "main listing_denied_api org_args = None"
proof -
  let ?a = listing_denied_api
  obtain st where gp: "get_projects ?a None
      (snd (execute (\<lambda>t. organizations_get ?a t ''organizations/123'')
              (OrganizationsGet ''organizations/123'')
              (print_out ''Validating organization...'' init_state))) = Some (Inr st)"
    by (simp add: get_projects.simps listing_denied_api_def example_api_def execute_def
        succeeded_def list_next_def truthy_def Let_def)
  obtain st1 where sp: "set_parent ?a ''123'' None \<lparr>org_name = ''organizations/123''\<rparr> st = Inr st1"
    and stack: "stack st1 = [''organizations/123'']"
    by (simp add: set_parent_def truthy_def org_policy_def listing_denied_api_def example_api_def
        execute_def succeeded_def Let_def flatten_into_def flatten_def example_policy_def
        bindings_of_def members_of_def unpack2_def)
  have "walk ?a st1 = None"
    by (rule walk_never_returns) (simp_all add: stack listing_denied_api_def)
  with gp sp show ?thesis
    by (simp add: main_def run_def org_args_def after_projects_def listing_denied_api_def
        example_api_def execute_def succeeded_def Let_def)
qed

section \<open>Where the failures are reported\<close>

text \<open>
  C7, evaluated on a service that refuses every folder policy: the three messages about
  the folder policies are printed on the output stream, between the progress lines, and
  nothing is printed on the error stream. The \<^verbatim>\<open>print\<close> of this handler has no
  \<^verbatim>\<open>file=sys.stderr\<close>, which the handlers of the other three failures have.
\<close>

theorem folder_policy_failure_goes_to_stdout:
  \<open>map_option (stderr \<circ> snd) (main folder_policy_denied_api org_args) = Some [] \<and>
   map_option (stdout \<circ> snd) (main folder_policy_denied_api org_args) =
     Some [''Validating organization...'', ''Getting projects...'', ''Getting folders...'',
           ''Error getting folder "1 IAM: 403'',
           ''Error getting folder "999 IAM: 403'',
           ''Getting folders...'',
           ''Error getting folder "2 IAM: 403'',
           ''Getting folders...'', ''Getting folders...'', ''Processing results...'',
           ''Writing file "iam_members.csv"'', ''Done.'',
           ''There were errors while generating the report; it may not be completely accurate.''] \<and>
   map_option (fst) (main folder_policy_denied_api org_args) = Some 1\<close>
  by code_simp

section \<open>The organization that cannot be fetched\<close>

text \<open>
  C5. When the first call, which fetches the organization, fails, the run raises
  \<^verbatim>\<open>SystemExit\<close> at once: the process ends with status 1 and the message on the error
  stream, the failed call is the only call it has made, so no policy was fetched and no
  folder or project listed, no row was collected and the output file was never opened.
\<close>

theorem fatal_short_circuit:
  assumes "organizations_get a 0 (''organizations/'' @ args_org_id ar) = Inl (HttpError m)"
  shows "main a ar =
           Some (1, \<lparr>ERROR = None, projects = [], final_results = [], folders = {}, stack = [],
                     stdout = [''Validating organization...''],
                     stderr = [''Error getting organization: '' @ m],
                     calls = [(OrganizationsGet (''organizations/'' @ args_org_id ar), False)],
                     written = None\<rparr>)"
  using assms
  by (simp add: main_def run_def execute_def succeeded_def print_out_def print_err_def
      init_state_def)

theorem fatal_short_circuit_witness:
  "organizations_get no_org_api 0 (''organizations/'' @ args_org_id org_args) = Inl (HttpError ''404'') \<and>
   main no_org_api org_args =
     Some (1, \<lparr>ERROR = None, projects = [], final_results = [], folders = {}, stack = [],
               stdout = [''Validating organization...''],
               stderr = [''Error getting organization: 404''],
               calls = [(OrganizationsGet ''organizations/123'', False)],
               written = None\<rparr>)"
proof -
  have h: "organizations_get no_org_api 0 (''organizations/'' @ args_org_id org_args) = Inl (HttpError ''404'')"
    by (simp add: no_org_api_def)
  from fatal_short_circuit [OF h] h show ?thesis
    by (simp add: org_args_def)
qed

section \<open>The project without a parent\<close>

text \<open>
  C10. A project whose record has no parent is not selected, whatever its state, the
  organization id and the folder ids walked: the loop over the projects passes it by
  without a call, a row, a message or an error.
\<close>

theorem parentless_project_not_selected:
  assumes "project_parent p = None"
  shows "\<not> selected org_id fs p \<and>
         process_projects a org_id (p # rest) st = process_projects a org_id rest st"
  using assms by (simp add: selected_def parent_get_id_def)

theorem parentless_project_not_selected_witness:
  "project_parent (last example_projects) = None \<and>
   lower (lifecycleState (last example_projects)) = ''active'' \<and>
   \<not> selected ''123'' {''1'', ''2'', ''999''} (last example_projects) \<and>
   process_projects example_api ''123'' [last example_projects] init_state = Inr init_state"
proof -
  have h: "project_parent (last example_projects) = None"
    by (simp add: example_projects_def)
  have "lower (lifecycleState (last example_projects)) = ''active''"
    by (simp add: example_projects_def lower_def lower_char_def)
  with h parentless_project_not_selected [OF h, of "''123''" "{''1'', ''2'', ''999''}" example_api "[]" init_state]
  show ?thesis by simp
qed

section \<open>Member strings\<close>

lemma member_accepted:
  assumes "one_colon member"
  shows "\<exists>typ mem. member = typ @ '':'' @ mem \<and>
           append_members loc r (member # ms) rs =
             append_members loc r ms (rs @ [(mem, typ, r, loc)])"
proof -
  from assms obtain ty mem where "member = ty @ '':'' @ mem"
    and "unpack2 (split_on CHR '':'' member) = Inr (ty, mem)"
    using split_one_colon [of member] by auto
  then have "member = ty @ '':'' @ mem \<and>
             append_members loc r (member # ms) rs =
               append_members loc r ms (rs @ [(mem, ty, r, loc)])"
    by simp
  then show ?thesis by (intro exI)
qed

lemma member_refused:
  "\<not> one_colon member \<Longrightarrow> append_members loc r (member # ms) rs = Inl (ValueError, rs)"
  by (simp add: split_not_one_colon)

lemma flatten_into_raises:
  assumes "\<not> well_formed iam"
  shows "\<exists>rs'. flatten_into loc iam st = Inl (ValueError, st\<lparr>final_results := rs'\<rparr>)"
proof -
  from assms obtain rs' where "append_bindings loc (bindings_of iam) (final_results st) = Inl (ValueError, rs')"
    unfolding well_formed_def using append_bindings_bad by metis
  then have "flatten_into loc iam st = Inl (ValueError, st\<lparr>final_results := rs'\<rparr>)"
    by (simp add: flatten_into_def flatten_def)
  then show ?thesis ..
qed

lemma org_policy_raises:
  assumes "\<not> well_formed iam"
    and "organizations_getIamPolicy a (length (calls st)) (org_name org) = Inr iam"
  shows "\<exists>st'. org_policy a org_id folder_id org st = Inl (ValueError, st') \<and> ERROR st' = ERROR st"
proof -
  let ?st1 = "st\<lparr>calls := calls st @ [(OrganizationsGetIamPolicy (org_name org), True)]\<rparr>"
  from assms(1) obtain rs' where
    "flatten_into (org_id, [], []) iam ?st1 = Inl (ValueError, ?st1\<lparr>final_results := rs'\<rparr>)"
    using flatten_into_raises by metis
  with assms(2)
  have "org_policy a org_id folder_id org st = Inl (ValueError, ?st1\<lparr>final_results := rs'\<rparr>) \<and>
        ERROR (?st1\<lparr>final_results := rs'\<rparr>) = ERROR st"
    by (simp add: org_policy_def execute_def succeeded_def)
  then show ?thesis by (intro exI)
qed

lemma process_folders_raises:
  assumes "\<not> well_formed iam"
    and "index1 (split_on CHR ''/'' (folder_name f)) = Inr fid"
    and "folders_getIamPolicy a (length (calls st)) (folder_name f) = Inr iam"
  shows "\<exists>st'. process_folders a (f # rest) st = Inl (ValueError, st') \<and> ERROR st' = ERROR st"
proof -
  let ?st1 = "st\<lparr>stack := stack st @ [folder_name f], folders := insert fid (folders st),
                  calls := calls st @ [(FoldersGetIamPolicy (folder_name f), True)]\<rparr>"
  from assms(1) obtain rs' where
    "flatten_into ([], fid, []) iam ?st1 = Inl (ValueError, ?st1\<lparr>final_results := rs'\<rparr>)"
    using flatten_into_raises by metis
  with assms(2,3)
  have "process_folders a (f # rest) st = Inl (ValueError, ?st1\<lparr>final_results := rs'\<rparr>) \<and>
        ERROR (?st1\<lparr>final_results := rs'\<rparr>) = ERROR st"
    by (simp add: execute_def succeeded_def)
  then show ?thesis by (intro exI)
qed

lemma process_projects_raises:
  assumes "\<not> well_formed iam"
    and "selected org_id (folders st) p"
    and "projects_getIamPolicy a (length (calls st)) (projectId p) = Inr iam"
  shows "\<exists>st'. process_projects a org_id (p # ps) st = Inl (ValueError, st') \<and> ERROR st' = ERROR st"
proof -
  let ?st1 = "st\<lparr>calls := calls st @ [(ProjectsGetIamPolicy (projectId p), True)]\<rparr>"
  from assms(1) obtain rs' where
    "flatten_into ([], [], projectId p) iam ?st1 = Inl (ValueError, ?st1\<lparr>final_results := rs'\<rparr>)"
    using flatten_into_raises by metis
  with assms(2,3)
  have "process_projects a org_id (p # ps) st = Inl (ValueError, ?st1\<lparr>final_results := rs'\<rparr>) \<and>
        ERROR (?st1\<lparr>final_results := rs'\<rparr>) = ERROR st"
    by (simp add: execute_def succeeded_def)
  then show ?thesis by (intro exI)
qed

lemma lists_within_anything: "lists_within (\<lambda>loc. True) a"
  by (auto simp: lists_within_def folder_within_def project_within_def list_all_iff
      split: sum.splits)

lemma raised_run_writes_nothing:
  assumes "run a org_id folder_id filename = Some (Inl (e, st))"
  shows "written st = None"
  using run_summary [OF assms lists_within_anything] by simp

lemma started_run:
  assumes "started a org_id org st"
  shows "run a org_id folder_id filename = after_projects a org_id folder_id filename org (Inr st)"
proof -
  let ?st0 = "print_out ''Validating organization...'' init_state"
  let ?c = "OrganizationsGet (''organizations/'' @ org_id)"
  obtain x st1 where ex: "execute (\<lambda>t. organizations_get a t (''organizations/'' @ org_id)) ?c ?st0 = (x, st1)"
    by (cases "execute (\<lambda>t. organizations_get a t (''organizations/'' @ org_id)) ?c ?st0")
  with assms obtain org' where x: "x = Inr org'" "org' = org"
    and gp: "get_projects a None st1 = Some (Inr st)"
    by (cases x) (auto simp: started_def)
  with ex show ?thesis
    by (simp add: run_def)
qed

lemma iteration_walk: "iteration a st st' \<Longrightarrow> walk a st = walk a st'"
  by (subst walk.simps) (simp add: iteration_def)

lemma iterations_walk: "rtranclp (iteration a) st st' \<Longrightarrow> walk a st = walk a st'"
  by (induction rule: rtranclp_induct) (auto dest: iteration_walk)

lemma attempt_list_children:
  "attempt a current (token, st) (token', st') \<Longrightarrow>
   list_children a current token st = list_children a current token' st'"
  by (subst list_children.simps)
    (auto simp: attempt_def split: prod.splits sum.splits http_error.splits option.splits)

lemma attempts_list_children:
  "rtranclp (attempt a current) x y \<Longrightarrow>
   list_children a current (fst x) (snd x) = list_children a current (fst y) (snd y)"
proof (induction rule: rtranclp_induct)
  case base
  show ?case by simp
next
  case (step y z)
  from step.hyps(2) have "attempt a current (fst y, snd y) (fst z, snd z)" by simp
  then have "list_children a current (fst y) (snd y) = list_children a current (fst z) (snd z)"
    by (rule attempt_list_children)
  with step.IH show ?case by simp
qed

lemma process_folders_append:
  "process_folders a (pre @ rest) st =
     (case process_folders a pre st of Inl x \<Rightarrow> Inl x | Inr st' \<Rightarrow> process_folders a rest st')"
  by (induction pre arbitrary: st)
    (auto split: sum.splits prod.splits http_error.splits)

lemma process_projects_append:
  "process_projects a org_id (pre @ rest) st =
     (case process_projects a org_id pre st of
        Inl x \<Rightarrow> Inl x
      | Inr st' \<Rightarrow> process_projects a org_id rest st')"
  by (induction pre arbitrary: st)
    (auto split: sum.splits prod.splits http_error.splits)

lemma list_children_raises:
  assumes "execute (\<lambda>t. folders_list a t current token) (FoldersList current token)
             (print_out ''Getting folders...'' st) = (Inr response, st1)"
    and "process_folders a (folders_of response) st1 = Inl x"
  shows "list_children a current token st = Some (Inl x)"
  by (subst list_children.simps) (simp add: assms)

lemma walk_raises:
  "stack st \<noteq> [] \<Longrightarrow>
   list_children a (last (stack st)) None (st\<lparr>stack := butlast (stack st)\<rparr>) = Some (Inl x) \<Longrightarrow>
   walk a st = Some (Inl x)"
  by (subst walk.simps) simp

lemma run_crashed:
  assumes "run a (args_org_id ar) (args_folder ar) (args_output ar) = Some (Inl (ValueError, st'))"
    and "ERROR st' = flag"
  shows "\<exists>st'. run a (args_org_id ar) (args_folder ar) (args_output ar) = Some (Inl (ValueError, st')) \<and>
           ERROR st' = flag \<and> written st' = None \<and>
           main a ar = Some (1, print_err ''Traceback (most recent call last):'' st')"
proof -
  from assms(1) have "written st' = None"
    by (rule raised_run_writes_nothing)
  moreover from assms(1) have "main a ar = Some (1, print_err ''Traceback (most recent call last):'' st')"
    by (simp add: main_def)
  ultimately show ?thesis
    using assms by (intro exI conjI)
qed

lemma run_crashes_at_organization:
  assumes s: "started a org_id org st" and f: "\<not> truthy folder_id"
    and p: "organizations_getIamPolicy a (length (calls st)) (org_name org) = Inr iam"
    and w: "\<not> well_formed iam"
  shows "\<exists>st'. run a org_id folder_id filename = Some (Inl (ValueError, st')) \<and> ERROR st' = ERROR st"
proof -
  from org_policy_raises [OF w p] obtain st' where
    o: "org_policy a org_id folder_id org st = Inl (ValueError, st')" and e: "ERROR st' = ERROR st"
    by blast
  from o f have "set_parent a org_id folder_id org st = Inl (ValueError, st')"
    by (simp add: set_parent_def)
  then have "after_projects a org_id folder_id filename org (Inr st) = Some (Inl (ValueError, st'))"
    by (simp add: after_projects_def)
  with started_run [OF s] have "run a org_id folder_id filename = Some (Inl (ValueError, st'))"
    by simp
  with e show ?thesis by (intro exI conjI)
qed

lemma run_crashes_at_folder:
  assumes s: "started a org_id org st"
    and sp: "set_parent a org_id folder_id org st = Inr st1"
    and it: "rtranclp (iteration a) st1 st2"
    and ne: "stack st2 \<noteq> []"
    and at: "rtranclp (attempt a (last (stack st2))) (None, st2\<lparr>stack := butlast (stack st2)\<rparr>) (token, st3)"
    and ex: "execute (\<lambda>t. folders_list a t (last (stack st2)) token) (FoldersList (last (stack st2)) token)
               (print_out ''Getting folders...'' st3) = (Inr response, st4)"
    and fs: "folders_of response = pre @ f # post"
    and pf: "process_folders a pre st4 = Inr st5"
    and i: "index1 (split_on CHR ''/'' (folder_name f)) = Inr fid"
    and p: "folders_getIamPolicy a (length (calls st5)) (folder_name f) = Inr iam"
    and w: "\<not> well_formed iam"
  shows "\<exists>st'. run a org_id folder_id filename = Some (Inl (ValueError, st')) \<and> ERROR st' = ERROR st5"
proof -
  from process_folders_raises [OF w i p] obtain st' where
    r: "process_folders a (f # post) st5 = Inl (ValueError, st')" and e: "ERROR st' = ERROR st5"
    by blast
  from r pf fs have "process_folders a (folders_of response) st4 = Inl (ValueError, st')"
    by (simp add: process_folders_append)
  with ex have "list_children a (last (stack st2)) token st3 = Some (Inl (ValueError, st'))"
    by (rule list_children_raises)
  with attempts_list_children [OF at]
  have "list_children a (last (stack st2)) None (st2\<lparr>stack := butlast (stack st2)\<rparr>) =
          Some (Inl (ValueError, st'))"
    by simp
  with ne have "walk a st2 = Some (Inl (ValueError, st'))"
    by (rule walk_raises)
  with iterations_walk [OF it] have "walk a st1 = Some (Inl (ValueError, st'))"
    by simp
  with sp have "after_projects a org_id folder_id filename org (Inr st) = Some (Inl (ValueError, st'))"
    by (simp add: after_projects_def after_walk_def)
  with started_run [OF s] have "run a org_id folder_id filename = Some (Inl (ValueError, st'))"
    by simp
  with e show ?thesis by (intro exI conjI)
qed

lemma run_crashes_at_project:
  assumes s: "started a org_id org st"
    and sp: "set_parent a org_id folder_id org st = Inr st1"
    and wk: "walk a st1 = Some (Inr st2)"
    and ps: "projects st2 = pre @ p # post"
    and pp: "process_projects a org_id pre (print_out ''Processing results...'' st2) = Inr st3"
    and sel: "selected org_id (folders st3) p"
    and pol: "projects_getIamPolicy a (length (calls st3)) (projectId p) = Inr iam"
    and w: "\<not> well_formed iam"
  shows "\<exists>st'. run a org_id folder_id filename = Some (Inl (ValueError, st')) \<and> ERROR st' = ERROR st3"
proof -
  from process_projects_raises [OF w sel pol] obtain st' where
    r: "process_projects a org_id (p # post) st3 = Inl (ValueError, st')" and e: "ERROR st' = ERROR st3"
    by blast
  from r pp ps
  have "process_projects a org_id (projects st2) (print_out ''Processing results...'' st2) =
          Inl (ValueError, st')"
    by (simp add: process_projects_append)
  then have "after_walk a org_id filename (Inr st2) = Inl (ValueError, st')"
    by (simp add: after_walk_def)
  with sp wk have "after_projects a org_id folder_id filename org (Inr st) = Some (Inl (ValueError, st'))"
    by (simp add: after_projects_def)
  with started_run [OF s] have "run a org_id folder_id filename = Some (Inl (ValueError, st'))"
    by simp
  with e show ?thesis by (intro exI conjI)
qed

text \<open>
  C6. A member string with exactly one colon is split into type and identifier and
  gives the row that carries the identifier, then the type. Any other member string
  makes the unpacking raise \<^verbatim>\<open>ValueError\<close>: the flattening of a policy that has such
  a member raises, at each of its three places the exception leaves the loop with the
  flag as it was, and a run it leaves ends with status 1, a traceback on the error
  stream and no output file. The run is left in this way wherever such a policy is
  fetched: as the policy of the organization, after the projects were listed; as the
  policy of a folder of a page, after any turns of the walk, any pages and failed
  listings of the node whose children are listed, and any folders of the page before
  it; as the policy of a selected project, after the walk and any projects before it.
\<close>

theorem member_string_parsing:
  "(one_colon member \<longrightarrow>
      (\<exists>typ mem. member = typ @ '':'' @ mem \<and>
         append_members loc r (member # ms) rs =
           append_members loc r ms (rs @ [(mem, typ, r, loc)]))) \<and>
   (\<not> one_colon member \<longrightarrow> append_members loc r (member # ms) rs = Inl (ValueError, rs)) \<and>
   (\<not> well_formed iam \<longrightarrow>
      (\<exists>rs'. flatten_into loc iam st = Inl (ValueError, st\<lparr>final_results := rs'\<rparr>))) \<and>
   (\<not> well_formed iam \<and>
    organizations_getIamPolicy a (length (calls st)) (org_name org) = Inr iam \<longrightarrow>
      (\<exists>st'. org_policy a org_id folder_id org st = Inl (ValueError, st') \<and> ERROR st' = ERROR st)) \<and>
   (\<not> well_formed iam \<and> index1 (split_on CHR ''/'' (folder_name f)) = Inr fid \<and>
    folders_getIamPolicy a (length (calls st)) (folder_name f) = Inr iam \<longrightarrow>
      (\<exists>st'. process_folders a (f # rest) st = Inl (ValueError, st') \<and> ERROR st' = ERROR st)) \<and>
   (\<not> well_formed iam \<and> selected org_id (folders st) p \<and>
    projects_getIamPolicy a (length (calls st)) (projectId p) = Inr iam \<longrightarrow>
      (\<exists>st'. process_projects a org_id (p # ps) st = Inl (ValueError, st') \<and> ERROR st' = ERROR st)) \<and>
   (run a (args_org_id ar) (args_folder ar) (args_output ar) = Some (Inl (ValueError, st)) \<longrightarrow>
      written st = None \<and>
      main a ar = Some (1, print_err ''Traceback (most recent call last):'' st)) \<and>
   (started a (args_org_id ar) org st \<and> \<not> truthy (args_folder ar) \<and>
    organizations_getIamPolicy a (length (calls st)) (org_name org) = Inr iam \<and>
    \<not> well_formed iam \<longrightarrow>
      (\<exists>st'. run a (args_org_id ar) (args_folder ar) (args_output ar) = Some (Inl (ValueError, st')) \<and>
         ERROR st' = ERROR st \<and> written st' = None \<and>
         main a ar = Some (1, print_err ''Traceback (most recent call last):'' st'))) \<and>
   (started a (args_org_id ar) org st \<and>
    set_parent a (args_org_id ar) (args_folder ar) org st = Inr st1 \<and>
    rtranclp (iteration a) st1 st2 \<and> stack st2 \<noteq> [] \<and>
    rtranclp (attempt a (last (stack st2))) (None, st2\<lparr>stack := butlast (stack st2)\<rparr>) (token, st3) \<and>
    execute (\<lambda>t. folders_list a t (last (stack st2)) token) (FoldersList (last (stack st2)) token)
      (print_out ''Getting folders...'' st3) = (Inr response, st4) \<and>
    folders_of response = pre @ f # rest \<and>
    process_folders a pre st4 = Inr st5 \<and>
    index1 (split_on CHR ''/'' (folder_name f)) = Inr fid \<and>
    folders_getIamPolicy a (length (calls st5)) (folder_name f) = Inr iam \<and>
    \<not> well_formed iam \<longrightarrow>
      (\<exists>st'. run a (args_org_id ar) (args_folder ar) (args_output ar) = Some (Inl (ValueError, st')) \<and>
         ERROR st' = ERROR st5 \<and> written st' = None \<and>
         main a ar = Some (1, print_err ''Traceback (most recent call last):'' st'))) \<and>
   (started a (args_org_id ar) org st \<and>
    set_parent a (args_org_id ar) (args_folder ar) org st = Inr st1 \<and>
    walk a st1 = Some (Inr st2) \<and>
    projects st2 = seen @ p # ps \<and>
    process_projects a (args_org_id ar) seen (print_out ''Processing results...'' st2) = Inr st3 \<and>
    selected (args_org_id ar) (folders st3) p \<and>
    projects_getIamPolicy a (length (calls st3)) (projectId p) = Inr iam \<and>
    \<not> well_formed iam \<longrightarrow>
      (\<exists>st'. run a (args_org_id ar) (args_folder ar) (args_output ar) = Some (Inl (ValueError, st')) \<and>
         ERROR st' = ERROR st3 \<and> written st' = None \<and>
         main a ar = Some (1, print_err ''Traceback (most recent call last):'' st')))"
proof (intro conjI impI)
  assume "one_colon member"
  then show "\<exists>typ mem. member = typ @ '':'' @ mem \<and>
         append_members loc r (member # ms) rs =
           append_members loc r ms (rs @ [(mem, typ, r, loc)])"
    by (rule member_accepted)
next
  assume "\<not> one_colon member"
  then show "append_members loc r (member # ms) rs = Inl (ValueError, rs)"
    by (rule member_refused)
next
  assume "\<not> well_formed iam"
  then show "\<exists>rs'. flatten_into loc iam st = Inl (ValueError, st\<lparr>final_results := rs'\<rparr>)"
    by (rule flatten_into_raises)
next
  assume "\<not> well_formed iam \<and>
    organizations_getIamPolicy a (length (calls st)) (org_name org) = Inr iam"
  then show "\<exists>st'. org_policy a org_id folder_id org st = Inl (ValueError, st') \<and> ERROR st' = ERROR st"
    using org_policy_raises by metis
next
  assume "\<not> well_formed iam \<and> index1 (split_on CHR ''/'' (folder_name f)) = Inr fid \<and>
    folders_getIamPolicy a (length (calls st)) (folder_name f) = Inr iam"
  then show "\<exists>st'. process_folders a (f # rest) st = Inl (ValueError, st') \<and> ERROR st' = ERROR st"
    using process_folders_raises by metis
next
  assume "\<not> well_formed iam \<and> selected org_id (folders st) p \<and>
    projects_getIamPolicy a (length (calls st)) (projectId p) = Inr iam"
  then show "\<exists>st'. process_projects a org_id (p # ps) st = Inl (ValueError, st') \<and> ERROR st' = ERROR st"
    using process_projects_raises by metis
next
  assume "run a (args_org_id ar) (args_folder ar) (args_output ar) = Some (Inl (ValueError, st))"
  then show "written st = None"
    by (rule raised_run_writes_nothing)
next
  assume "run a (args_org_id ar) (args_folder ar) (args_output ar) = Some (Inl (ValueError, st))"
  then show "main a ar = Some (1, print_err ''Traceback (most recent call last):'' st)"
    by (simp add: main_def)
next
  assume h: "started a (args_org_id ar) org st \<and> \<not> truthy (args_folder ar) \<and>
    organizations_getIamPolicy a (length (calls st)) (org_name org) = Inr iam \<and>
    \<not> well_formed iam"
  have "\<exists>st'. run a (args_org_id ar) (args_folder ar) (args_output ar) = Some (Inl (ValueError, st')) \<and>
          ERROR st' = ERROR st"
    by (rule run_crashes_at_organization [of a "args_org_id ar" org st "args_folder ar" iam])
      (simp_all add: h)
  then show "\<exists>st'. run a (args_org_id ar) (args_folder ar) (args_output ar) = Some (Inl (ValueError, st')) \<and>
         ERROR st' = ERROR st \<and> written st' = None \<and>
         main a ar = Some (1, print_err ''Traceback (most recent call last):'' st')"
    by (elim exE conjE) (rule run_crashed)
next
  assume h: "started a (args_org_id ar) org st \<and>
    set_parent a (args_org_id ar) (args_folder ar) org st = Inr st1 \<and>
    rtranclp (iteration a) st1 st2 \<and> stack st2 \<noteq> [] \<and>
    rtranclp (attempt a (last (stack st2))) (None, st2\<lparr>stack := butlast (stack st2)\<rparr>) (token, st3) \<and>
    execute (\<lambda>t. folders_list a t (last (stack st2)) token) (FoldersList (last (stack st2)) token)
      (print_out ''Getting folders...'' st3) = (Inr response, st4) \<and>
    folders_of response = pre @ f # rest \<and>
    process_folders a pre st4 = Inr st5 \<and>
    index1 (split_on CHR ''/'' (folder_name f)) = Inr fid \<and>
    folders_getIamPolicy a (length (calls st5)) (folder_name f) = Inr iam \<and>
    \<not> well_formed iam"
  have "\<exists>st'. run a (args_org_id ar) (args_folder ar) (args_output ar) = Some (Inl (ValueError, st')) \<and>
          ERROR st' = ERROR st5"
    by (rule run_crashes_at_folder [of a "args_org_id ar" org st "args_folder ar" st1 st2 token st3
          response st4 pre f rest st5 fid iam])
      (simp_all add: h)
  then show "\<exists>st'. run a (args_org_id ar) (args_folder ar) (args_output ar) = Some (Inl (ValueError, st')) \<and>
         ERROR st' = ERROR st5 \<and> written st' = None \<and>
         main a ar = Some (1, print_err ''Traceback (most recent call last):'' st')"
    by (elim exE conjE) (rule run_crashed)
next
  assume h: "started a (args_org_id ar) org st \<and>
    set_parent a (args_org_id ar) (args_folder ar) org st = Inr st1 \<and>
    walk a st1 = Some (Inr st2) \<and>
    projects st2 = seen @ p # ps \<and>
    process_projects a (args_org_id ar) seen (print_out ''Processing results...'' st2) = Inr st3 \<and>
    selected (args_org_id ar) (folders st3) p \<and>
    projects_getIamPolicy a (length (calls st3)) (projectId p) = Inr iam \<and>
    \<not> well_formed iam"
  have "\<exists>st'. run a (args_org_id ar) (args_folder ar) (args_output ar) = Some (Inl (ValueError, st')) \<and>
          ERROR st' = ERROR st3"
    by (rule run_crashes_at_project [of a "args_org_id ar" org st "args_folder ar" st1 st2 seen p ps
          st3 iam])
      (simp_all add: h)
  then show "\<exists>st'. run a (args_org_id ar) (args_folder ar) (args_output ar) = Some (Inl (ValueError, st')) \<and>
         ERROR st' = ERROR st3 \<and> written st' = None \<and>
         main a ar = Some (1, print_err ''Traceback (most recent call last):'' st')"
    by (elim exE conjE) (rule run_crashed)
qed

theorem member_string_parsing_witness:
  "one_colon ''user:a@example.com'' \<and>
   (\<exists>typ mem. ''user:a@example.com'' = typ @ '':'' @ mem \<and>
      append_members ([], ''2'', []) ''roles/viewer'' [''user:a@example.com''] [] =
        append_members ([], ''2'', []) ''roles/viewer'' [] ([] @ [(mem, typ, ''roles/viewer'', [], ''2'', [])])) \<and>
   append_members ([], ''2'', []) ''roles/viewer'' [''user:a@example.com''] [] =
     Inr [(''a@example.com'', ''user'', ''roles/viewer'', [], ''2'', [])] \<and>
   \<not> one_colon ''allUsers'' \<and>
   append_members ([], ''2'', []) ''roles/viewer'' [''allUsers'', ''user:a@example.com''] [] =
     Inl (ValueError, []) \<and>
   \<not> one_colon ''deleted:user:a@example.com?uid=1'' \<and>
   append_members ([], ''2'', []) ''roles/viewer'' [''deleted:user:a@example.com?uid=1''] [] =
     Inl (ValueError, []) \<and>
   \<not> well_formed deleted_member_policy \<and>
   (\<exists>rs'. flatten_into ([], ''2'', []) deleted_member_policy init_state =
           Inl (ValueError, init_state\<lparr>final_results := rs'\<rparr>)) \<and>
   (\<exists>st'. org_policy deleted_member_api ''123'' None \<lparr>org_name = ''organizations/123''\<rparr> init_state =
           Inl (ValueError, st') \<and> ERROR st' = ERROR init_state) \<and>
   (\<exists>st'. process_folders deleted_folder_member_api [\<lparr>folder_name = ''folders/1''\<rparr>, \<lparr>folder_name = ''folders/999''\<rparr>] init_state =
           Inl (ValueError, st') \<and> ERROR st' = ERROR init_state) \<and>
   (\<exists>st'. process_projects deleted_project_member_api ''123'' (hd example_projects # tl example_projects) init_state =
           Inl (ValueError, st') \<and> ERROR st' = ERROR init_state) \<and>
   run deleted_member_api (args_org_id org_args) (args_folder org_args) (args_output org_args) =
     Some (Inl (ValueError, crashed_state)) \<and>
   written crashed_state = None \<and>
   main deleted_member_api org_args =
     Some (1, print_err ''Traceback (most recent call last):'' crashed_state) \<and>
   started deleted_member_api ''123'' \<lparr>org_name = ''organizations/123''\<rparr> listed_state \<and>
   (\<exists>st'. run deleted_member_api (args_org_id org_args) (args_folder org_args) (args_output org_args) =
            Some (Inl (ValueError, st')) \<and>
          ERROR st' = None \<and> written st' = None \<and>
          main deleted_member_api org_args =
            Some (1, print_err ''Traceback (most recent call last):'' st')) \<and>
   started deleted_in_folder_2_api ''123'' \<lparr>org_name = ''organizations/123''\<rparr> listed_state \<and>
   (\<exists>st'. run deleted_in_folder_2_api (args_org_id org_args) (args_folder org_args) (args_output org_args) =
            Some (Inl (ValueError, st')) \<and>
          ERROR st' = Some True \<and> written st' = None \<and>
          main deleted_in_folder_2_api org_args =
            Some (1, print_err ''Traceback (most recent call last):'' st')) \<and>
   started deleted_in_p_999_api ''123'' \<lparr>org_name = ''organizations/123''\<rparr> listed_state \<and>
   (\<exists>st'. run deleted_in_p_999_api (args_org_id org_args) (args_folder org_args) (args_output org_args) =
            Some (Inl (ValueError, st')) \<and>
          ERROR st' = None \<and> written st' = None \<and>
          main deleted_in_p_999_api org_args =
            Some (1, print_err ''Traceback (most recent call last):'' st'))"
proof -
  let ?org = "\<lparr>org_name = ''organizations/123''\<rparr>"
  let ?f2 = "\<lparr>folder_name = ''folders/2''\<rparr>"
  let ?s1 = "outcome_state (set_parent deleted_in_folder_2_api (args_org_id org_args)
               (args_folder org_args) ?org listed_state)"
  let ?s2 = "outcome_state (the (list_children deleted_in_folder_2_api (last (stack ?s1)) None
               (?s1\<lparr>stack := butlast (stack ?s1)\<rparr>)))"
  let ?s3 = "?s2\<lparr>stack := butlast (stack ?s2)\<rparr>"
  let ?response = "\<lparr>resp_folders = Some [?f2], folders_nextPageToken = None\<rparr>"
  let ?s3' = \<open>print_err (''Error getting child folders of "folders/999": 503'')
               ((snd (execute (\<lambda>t. folders_list deleted_in_folder_2_api t (last (stack ?s2)) None)
                        (FoldersList (last (stack ?s2)) None) (print_out ''Getting folders...'' ?s3)))
                \<lparr>ERROR := Some True\<rparr>)\<close>
  let ?s4 = "snd (execute (\<lambda>t. folders_list deleted_in_folder_2_api t (last (stack ?s2)) None)
               (FoldersList (last (stack ?s2)) None) (print_out ''Getting folders...'' ?s3'))"
  let ?t1 = "outcome_state (set_parent deleted_in_p_999_api (args_org_id org_args)
               (args_folder org_args) ?org listed_state)"
  let ?t2 = "outcome_state (the (walk deleted_in_p_999_api ?t1))"
  let ?p = "hd (tl example_projects)"
  let ?t3 = "outcome_state (process_projects deleted_in_p_999_api (args_org_id org_args)
               [hd example_projects] (print_out ''Processing results...'' ?t2))"
  have so1: "started deleted_member_api (args_org_id org_args) ?org listed_state"
    by code_simp
  have so2: "\<not> truthy (args_folder org_args)"
    by (simp add: truthy_def org_args_def)
  have so3: "organizations_getIamPolicy deleted_member_api (length (calls listed_state))
               (org_name ?org) = Inr deleted_member_policy"
    by (simp add: deleted_member_api_def example_api_def)
  have so5: "ERROR listed_state = None"
    by (simp add: listed_state_def)
  have sf1: "started deleted_in_folder_2_api (args_org_id org_args) ?org listed_state"
    by code_simp
  have sf2: "set_parent deleted_in_folder_2_api (args_org_id org_args) (args_folder org_args) ?org
               listed_state = Inr ?s1"
    by code_simp
  have "iteration deleted_in_folder_2_api ?s1 ?s2"
    by code_simp
  then have sf3: "rtranclp (iteration deleted_in_folder_2_api) ?s1 ?s2"
    by (rule r_into_rtranclp)
  have sf4: "stack ?s2 \<noteq> []"
    by code_simp
  have "attempt deleted_in_folder_2_api (last (stack ?s2)) (None, ?s3) (None, ?s3')"
    by code_simp
  then have sf5: "rtranclp (attempt deleted_in_folder_2_api (last (stack ?s2))) (None, ?s3) (None, ?s3')"
    by (rule r_into_rtranclp)
  have sf6: "execute (\<lambda>t. folders_list deleted_in_folder_2_api t (last (stack ?s2)) None)
               (FoldersList (last (stack ?s2)) None) (print_out ''Getting folders...'' ?s3') =
             (Inr ?response, ?s4)"
    by code_simp
  have sf7: "folders_of ?response = [] @ ?f2 # []"
    by (simp add: folders_of_def)
  have sf8: "process_folders deleted_in_folder_2_api [] ?s4 = Inr ?s4"
    by simp
  have sf9: "index1 (split_on CHR ''/'' (folder_name ?f2)) = Inr ''2''"
    by (simp add: index1_def)
  have sf10: "folders_getIamPolicy deleted_in_folder_2_api (length (calls ?s4)) (folder_name ?f2) =
                Inr deleted_member_policy"
    by (simp add: deleted_in_folder_2_api_def example_api_def)
  have sf11: "ERROR ?s4 = Some True"
    by code_simp
  have sp1: "started deleted_in_p_999_api (args_org_id org_args) ?org listed_state"
    by code_simp
  have sp2: "set_parent deleted_in_p_999_api (args_org_id org_args) (args_folder org_args) ?org
               listed_state = Inr ?t1"
    by code_simp
  have sp3: "walk deleted_in_p_999_api ?t1 = Some (Inr ?t2)"
    by code_simp
  have sp4: "projects ?t2 = [hd example_projects] @ ?p # tl (tl example_projects)"
    by code_simp
  have sp5: "process_projects deleted_in_p_999_api (args_org_id org_args) [hd example_projects]
               (print_out ''Processing results...'' ?t2) = Inr ?t3"
    by code_simp
  have sp6: "selected (args_org_id org_args) (folders ?t3) ?p"
    by code_simp
  have sp7: "projects_getIamPolicy deleted_in_p_999_api (length (calls ?t3)) (projectId ?p) =
               Inr deleted_member_policy"
    by (simp add: deleted_in_p_999_api_def example_api_def example_projects_def)
  have sp8: "ERROR ?t3 = None"
    by code_simp
  have id: "args_org_id org_args = ''123''"
    by (simp add: org_args_def)
  have c1: "one_colon ''user:a@example.com''"
    by (simp add: one_colon_def)
  have c0: "\<not> one_colon ''allUsers''"
    by (simp add: one_colon_def)
  have c2: "\<not> one_colon ''deleted:user:a@example.com?uid=1''"
    by (simp add: one_colon_def)
  have nw: "\<not> well_formed deleted_member_policy"
    by (simp add: well_formed_def deleted_member_policy_def bindings_of_def members_of_def one_colon_def)
  have e1: "append_members ([], ''2'', []) ''roles/viewer'' [''user:a@example.com''] [] =
     Inr [(''a@example.com'', ''user'', ''roles/viewer'', [], ''2'', [])]"
    by (simp add: unpack2_def)
  have org: "\<not> well_formed deleted_member_policy \<and>
    organizations_getIamPolicy deleted_member_api (length (calls init_state))
      (org_name \<lparr>org_name = ''organizations/123''\<rparr>) = Inr deleted_member_policy"
    using nw by (simp add: deleted_member_api_def example_api_def)
  have fol: "\<not> well_formed deleted_member_policy \<and>
    index1 (split_on CHR ''/'' (folder_name \<lparr>folder_name = ''folders/1''\<rparr>)) = Inr ''1'' \<and>
    folders_getIamPolicy deleted_folder_member_api (length (calls init_state))
      (folder_name \<lparr>folder_name = ''folders/1''\<rparr>) = Inr deleted_member_policy"
    using nw by (simp add: deleted_folder_member_api_def example_api_def index1_def)
  have prj: "\<not> well_formed deleted_member_policy \<and>
    selected ''123'' (folders init_state) (hd example_projects) \<and>
    projects_getIamPolicy deleted_project_member_api (length (calls init_state))
      (projectId (hd example_projects)) = Inr deleted_member_policy"
    using nw
    by (simp add: deleted_project_member_api_def example_api_def example_projects_def selected_def
        parent_get_id_def lower_def lower_char_def init_state_def)
  have rn: "run deleted_member_api (args_org_id org_args) (args_folder org_args) (args_output org_args) =
     Some (Inl (ValueError, crashed_state))"
    by code_simp
  note i1 = member_string_parsing [where member = "''user:a@example.com''" and loc = "([], ''2'', [])"
      and r = "''roles/viewer''" and ms = "[]" and rs = "[]", THEN conjunct1, THEN mp, OF c1]
  note i0 = member_string_parsing [where member = "''allUsers''" and loc = "([], ''2'', [])"
      and r = "''roles/viewer''" and ms = "[''user:a@example.com'']" and rs = "[]",
      THEN conjunct2, THEN conjunct1, THEN mp, OF c0]
  note i2 = member_string_parsing [where member = "''deleted:user:a@example.com?uid=1''"
      and loc = "([], ''2'', [])" and r = "''roles/viewer''" and ms = "[]" and rs = "[]",
      THEN conjunct2, THEN conjunct1, THEN mp, OF c2]
  note i3 = member_string_parsing [where iam = deleted_member_policy and loc = "([], ''2'', [])"
      and st = init_state,
      THEN conjunct2, THEN conjunct2, THEN conjunct1, THEN mp, OF nw]
  note i4 = member_string_parsing [where iam = deleted_member_policy and a = deleted_member_api
      and st = init_state and org = "\<lparr>org_name = ''organizations/123''\<rparr>" and org_id = "''123''"
      and folder_id = None,
      THEN conjunct2, THEN conjunct2, THEN conjunct2, THEN conjunct1, THEN mp, OF org]
  note i5 = member_string_parsing [where iam = deleted_member_policy and a = deleted_folder_member_api
      and st = init_state and f = "\<lparr>folder_name = ''folders/1''\<rparr>" and fid = "''1''"
      and rest = "[\<lparr>folder_name = ''folders/999''\<rparr>]",
      THEN conjunct2, THEN conjunct2, THEN conjunct2, THEN conjunct2, THEN conjunct1, THEN mp, OF fol]
  note i6 = member_string_parsing [where iam = deleted_member_policy and a = deleted_project_member_api
      and st = init_state and p = "hd example_projects" and org_id = "''123''"
      and ps = "tl example_projects",
      THEN conjunct2, THEN conjunct2, THEN conjunct2, THEN conjunct2, THEN conjunct2,
      THEN conjunct1, THEN mp, OF prj]
  note i7 = member_string_parsing [where a = deleted_member_api and ar = org_args
      and st = crashed_state,
      THEN conjunct2, THEN conjunct2, THEN conjunct2, THEN conjunct2, THEN conjunct2,
      THEN conjunct2, THEN conjunct1, THEN mp, OF rn]
  from so1 so2 so3 nw
  have ho: "started deleted_member_api (args_org_id org_args) ?org listed_state \<and>
    \<not> truthy (args_folder org_args) \<and>
    organizations_getIamPolicy deleted_member_api (length (calls listed_state)) (org_name ?org) =
      Inr deleted_member_policy \<and>
    \<not> well_formed deleted_member_policy"
    by (intro conjI)
  from sf1 sf2 sf3 sf4 sf5 sf6 sf7 sf8 sf9 sf10 nw
  have hf: "started deleted_in_folder_2_api (args_org_id org_args) ?org listed_state \<and>
    set_parent deleted_in_folder_2_api (args_org_id org_args) (args_folder org_args) ?org listed_state =
      Inr ?s1 \<and>
    rtranclp (iteration deleted_in_folder_2_api) ?s1 ?s2 \<and> stack ?s2 \<noteq> [] \<and>
    rtranclp (attempt deleted_in_folder_2_api (last (stack ?s2)))
      (None, ?s2\<lparr>stack := butlast (stack ?s2)\<rparr>) (None, ?s3') \<and>
    execute (\<lambda>t. folders_list deleted_in_folder_2_api t (last (stack ?s2)) None)
      (FoldersList (last (stack ?s2)) None) (print_out ''Getting folders...'' ?s3') =
      (Inr ?response, ?s4) \<and>
    folders_of ?response = [] @ ?f2 # [] \<and>
    process_folders deleted_in_folder_2_api [] ?s4 = Inr ?s4 \<and>
    index1 (split_on CHR ''/'' (folder_name ?f2)) = Inr ''2'' \<and>
    folders_getIamPolicy deleted_in_folder_2_api (length (calls ?s4)) (folder_name ?f2) =
      Inr deleted_member_policy \<and>
    \<not> well_formed deleted_member_policy"
    by (intro conjI)
  from sp1 sp2 sp3 sp4 sp5 sp6 sp7 nw
  have hp: "started deleted_in_p_999_api (args_org_id org_args) ?org listed_state \<and>
    set_parent deleted_in_p_999_api (args_org_id org_args) (args_folder org_args) ?org listed_state =
      Inr ?t1 \<and>
    walk deleted_in_p_999_api ?t1 = Some (Inr ?t2) \<and>
    projects ?t2 = [hd example_projects] @ ?p # tl (tl example_projects) \<and>
    process_projects deleted_in_p_999_api (args_org_id org_args) [hd example_projects]
      (print_out ''Processing results...'' ?t2) = Inr ?t3 \<and>
    selected (args_org_id org_args) (folders ?t3) ?p \<and>
    projects_getIamPolicy deleted_in_p_999_api (length (calls ?t3)) (projectId ?p) =
      Inr deleted_member_policy \<and>
    \<not> well_formed deleted_member_policy"
    by (intro conjI)
  note i8 = member_string_parsing [where a = deleted_member_api and ar = org_args and org = ?org
      and st = listed_state and iam = deleted_member_policy,
      THEN conjunct2, THEN conjunct2, THEN conjunct2, THEN conjunct2, THEN conjunct2,
      THEN conjunct2, THEN conjunct2, THEN conjunct1, THEN mp, OF ho, unfolded so5]
  note i9 = member_string_parsing [where a = deleted_in_folder_2_api and ar = org_args
      and org = ?org and st = listed_state and ?st1.0 = ?s1 and ?st2.0 = ?s2 and token = None
      and ?st3.0 = ?s3' and response = ?response and ?st4.0 = ?s4 and pre = "[]" and f = ?f2
      and rest = "[]" and ?st5.0 = ?s4 and fid = "''2''" and iam = deleted_member_policy,
      THEN conjunct2, THEN conjunct2, THEN conjunct2, THEN conjunct2, THEN conjunct2,
      THEN conjunct2, THEN conjunct2, THEN conjunct2, THEN conjunct1, THEN mp, OF hf,
      unfolded sf11]
  note i10 = member_string_parsing [where a = deleted_in_p_999_api and ar = org_args
      and org = ?org and st = listed_state and ?st1.0 = ?t1 and ?st2.0 = ?t2
      and seen = "[hd example_projects]" and p = ?p and ps = "tl (tl example_projects)"
      and ?st3.0 = ?t3 and iam = deleted_member_policy,
      THEN conjunct2, THEN conjunct2, THEN conjunct2, THEN conjunct2, THEN conjunct2,
      THEN conjunct2, THEN conjunct2, THEN conjunct2, THEN conjunct2, THEN mp, OF hp,
      unfolded sp8]
  show ?thesis
    apply (intro conjI)
                  apply (rule c1)
                 apply (rule i1)
                apply (rule e1)
               apply (rule c0)
              apply (rule i0)
             apply (rule c2)
            apply (rule i2)
           apply (rule nw)
          apply (rule i3)
         apply (rule i4)
        apply (rule i5)
       apply (rule i6)
      apply (rule rn)
     apply (rule i7 [THEN conjunct1])
    apply (rule i7 [THEN conjunct2])
    apply (rule so1 [unfolded id])
    apply (rule i8)
    apply (rule sf1 [unfolded id])
    apply (rule i9)
    apply (rule sp1 [unfolded id])
    apply (rule i10)
    done
qed

section \<open>The location of a row\<close>

lemma located_filled: "located r = filled (row_location r)"
  by (cases r) (simp add: located_def row_location_def)

lemma append_members_adds:
  "\<exists>new. (case append_members loc r ms rs of Inl (e, rs') \<Rightarrow> rs' | Inr rs' \<Rightarrow> rs') = rs @ new \<and>
         list_all (\<lambda>row. row_location row = loc) new"
proof (induction ms arbitrary: rs)
  case Nil
  show ?case by simp
next
  case (Cons m ms)
  show ?case
  proof (cases "unpack2 (split_on CHR '':'' m)")
    case (Inl e)
    then show ?thesis by simp
  next
    case (Inr tm)
    obtain ty mem where tm: "tm = (ty, mem)" by (cases tm)
    from Cons.IH [of "rs @ [(mem, ty, r, loc)]"] obtain new where
      n: "(case append_members loc r ms (rs @ [(mem, ty, r, loc)]) of Inl (e, rs') \<Rightarrow> rs' | Inr rs' \<Rightarrow> rs') =
          (rs @ [(mem, ty, r, loc)]) @ new"
      and l: "list_all (\<lambda>row. row_location row = loc) new"
      by auto
    from n Inr tm
    have "(case append_members loc r (m # ms) rs of Inl (e, rs') \<Rightarrow> rs' | Inr rs' \<Rightarrow> rs') =
            rs @ ((mem, ty, r, loc) # new)"
      by simp
    moreover from l have "list_all (\<lambda>row. row_location row = loc) ((mem, ty, r, loc) # new)"
      by (simp add: row_location_def)
    ultimately show ?thesis by (intro exI conjI)
  qed
qed

lemma append_bindings_adds:
  "\<exists>new. (case append_bindings loc bs rs of Inl (e, rs') \<Rightarrow> rs' | Inr rs' \<Rightarrow> rs') = rs @ new \<and>
         list_all (\<lambda>row. row_location row = loc) new"
proof (induction bs arbitrary: rs)
  case Nil
  show ?case by simp
next
  case (Cons b bs)
  from append_members_adds [of loc "role b" "members_of b" rs] obtain n1 where
    n1: "(case append_members loc (role b) (members_of b) rs of Inl (e, rs') \<Rightarrow> rs' | Inr rs' \<Rightarrow> rs') = rs @ n1"
    and l1: "list_all (\<lambda>row. row_location row = loc) n1"
    by auto
  show ?case
  proof (cases "append_members loc (role b) (members_of b) rs")
    case (Inl x)
    with n1 have "(case append_bindings loc (b # bs) rs of Inl (e, rs') \<Rightarrow> rs' | Inr rs' \<Rightarrow> rs') = rs @ n1"
      by simp
    with l1 show ?thesis by (intro exI conjI)
  next
    case (Inr rs1)
    with n1 have rs1: "rs1 = rs @ n1" by simp
    from Cons.IH [of rs1] obtain n2 where
      n2: "(case append_bindings loc bs rs1 of Inl (e, rs') \<Rightarrow> rs' | Inr rs' \<Rightarrow> rs') = rs1 @ n2"
      and l2: "list_all (\<lambda>row. row_location row = loc) n2"
      by auto
    from n2 Inr rs1
    have "(case append_bindings loc (b # bs) rs of Inl (e, rs') \<Rightarrow> rs' | Inr rs' \<Rightarrow> rs') = rs @ (n1 @ n2)"
      by simp
    moreover from l1 l2 have "list_all (\<lambda>row. row_location row = loc) (n1 @ n2)"
      by simp
    ultimately show ?thesis by (intro exI conjI)
  qed
qed

lemma flatten_into_adds:
  "\<exists>new. final_results (outcome_state (flatten_into loc iam st)) = final_results st @ new \<and>
         list_all (\<lambda>row. row_location row = loc) new"
proof -
  from append_bindings_adds [of loc "bindings_of iam" "final_results st"] obtain new where
    n: "(case append_bindings loc (bindings_of iam) (final_results st) of
           Inl (e, rs') \<Rightarrow> rs' | Inr rs' \<Rightarrow> rs') = final_results st @ new"
    and l: "list_all (\<lambda>row. row_location row = loc) new"
    by auto
  from n have "final_results (outcome_state (flatten_into loc iam st)) = final_results st @ new"
    by (auto simp: flatten_into_def flatten_def outcome_state_def split: sum.splits)
  with l show ?thesis by (intro exI conjI)
qed

lemma adds_nothing:
  "final_results st1 = final_results st \<Longrightarrow>
   \<exists>new. final_results (outcome_state (Inr st1)) = final_results st @ new \<and> list_all P new"
  by (simp add: outcome_state_def)

lemma adds_more:
  assumes "final_results st1 = final_results st @ n1" and "list_all P n1"
    and "\<exists>new. final_results (outcome_state r) = final_results st1 @ new \<and> list_all P new"
  shows "\<exists>new. final_results (outcome_state r) = final_results st @ new \<and> list_all P new"
proof -
  from assms(3) obtain n2 where "final_results (outcome_state r) = final_results st1 @ n2"
    and "list_all P n2" by auto
  with assms(1,2) have "final_results (outcome_state r) = final_results st @ (n1 @ n2) \<and>
    list_all P (n1 @ n2)" by simp
  then show ?thesis by (intro exI)
qed

lemma adds_weaker:
  assumes "\<exists>new. final_results (outcome_state r) = final_results st @ new \<and> list_all P new"
    and "\<And>row. P row \<Longrightarrow> P' row"
  shows "\<exists>new. final_results (outcome_state r) = final_results st @ new \<and> list_all P' new"
  using assms by (auto simp: list_all_iff)

lemma org_policy_adds:
  "\<exists>new. final_results (outcome_state (org_policy a org_id folder_id org st)) =
            final_results st @ new \<and> list_all (org_row org_id) new"
proof -
  obtain r st1 where ex: "execute (\<lambda>t. organizations_getIamPolicy a t (org_name org))
             (OrganizationsGetIamPolicy (org_name org)) st = (r, st1)"
    by (cases "execute (\<lambda>t. organizations_getIamPolicy a t (org_name org))
             (OrganizationsGetIamPolicy (org_name org)) st")
  show ?thesis
  proof (cases r)
    case (Inl e)
    with ex have "st1 = st\<lparr>calls := calls st @ [(OrganizationsGetIamPolicy (org_name org), False)]\<rparr>"
      by (auto dest: execute_failed)
    with ex Inl show ?thesis
      by (cases e) (simp add: org_policy_def print_err_def outcome_state_def)
  next
    case (Inr iam)
    with ex have "st1 = st\<lparr>calls := calls st @ [(OrganizationsGetIamPolicy (org_name org), True)]\<rparr>"
      by (auto dest: execute_ok)
    then have f: "final_results st1 = final_results st" by simp
    from flatten_into_adds [of "(org_id, [], [])" iam st1] f
    have "\<exists>new. final_results (outcome_state (flatten_into (org_id, [], []) iam st1)) =
            final_results st @ new \<and> list_all (org_row org_id) new"
      by (simp add: org_row_def [abs_def])
    with ex Inr show ?thesis
      by (simp add: org_policy_def)
  qed
qed

lemma folder_row_later: "folder_row rest row \<Longrightarrow> folder_row (f # rest) row"
  by (simp add: folder_row_def)

lemma folder_row_first:
  "index1 (split_on CHR ''/'' (folder_name f)) = Inr fid \<Longrightarrow> row_location row = ([], fid, []) \<Longrightarrow>
   folder_row (f # rest) row"
  by (simp add: folder_row_def)

lemma process_folders_adds:
  "\<exists>new. final_results (outcome_state (process_folders a fs st)) = final_results st @ new \<and>
         list_all (folder_row fs) new"
proof (induction fs arbitrary: st)
  case Nil
  show ?case by (simp add: outcome_state_def)
next
  case (Cons f rest)
  show ?case
  proof (cases "index1 (split_on CHR ''/'' (folder_name f))")
    case (Inl e)
    then show ?thesis by (simp add: outcome_state_def)
  next
    case fid: (Inr fid)
    let ?st0 = "st\<lparr>stack := stack st @ [folder_name f], folders := insert fid (folders st)\<rparr>"
    obtain r st1 where ex: "execute (\<lambda>t. folders_getIamPolicy a t (folder_name f))
                  (FoldersGetIamPolicy (folder_name f)) ?st0 = (r, st1)"
      by (cases "execute (\<lambda>t. folders_getIamPolicy a t (folder_name f))
                  (FoldersGetIamPolicy (folder_name f)) ?st0")
    show ?thesis
    proof (cases r)
      case (Inl e)
      obtain m where e: "e = HttpError m" by (cases e)
      let ?st2 = "print_out (''Error getting folder \"'' @ fid @ '' IAM: '' @ m) (st1\<lparr>ERROR := Some True\<rparr>)"
      from ex Inl have "st1 = ?st0\<lparr>calls := calls ?st0 @ [(FoldersGetIamPolicy (folder_name f), False)]\<rparr>"
        by (auto dest: execute_failed)
      then have f2: "final_results ?st2 = final_results st @ []"
        by (simp add: print_out_def)
      have later: "\<exists>new. final_results (outcome_state (process_folders a rest ?st2)) = final_results ?st2 @ new \<and>
         list_all (folder_row (f # rest)) new"
        using Cons.IH [of ?st2] by (rule adds_weaker) (rule folder_row_later)
      have "\<exists>new. final_results (outcome_state (process_folders a rest ?st2)) = final_results st @ new \<and>
         list_all (folder_row (f # rest)) new"
        by (rule adds_more [OF f2 _ later]) simp
      with fid ex Inl e show ?thesis by simp
    next
      case (Inr iam)
      from ex Inr have "st1 = ?st0\<lparr>calls := calls ?st0 @ [(FoldersGetIamPolicy (folder_name f), True)]\<rparr>"
        by (auto dest: execute_ok)
      then have f1: "final_results st1 = final_results st" by simp
      from flatten_into_adds [of "([], fid, [])" iam st1] f1 obtain n1 where
        n1: "final_results (outcome_state (flatten_into ([], fid, []) iam st1)) = final_results st @ n1"
        and l1: "list_all (\<lambda>row. row_location row = ([], fid, [])) n1"
        by auto
      from l1 have l1': "list_all (folder_row (f # rest)) n1"
        using folder_row_first [OF fid] by (auto simp: list_all_iff)
      show ?thesis
      proof (cases "flatten_into ([], fid, []) iam st1")
        case (Inl x)
        with n1 have "final_results (outcome_state (Inl x)) = final_results st @ n1" by simp
        with l1' have "\<exists>new. final_results (outcome_state (Inl x)) = final_results st @ new \<and>
          list_all (folder_row (f # rest)) new" by (intro exI conjI)
        with fid ex Inr Inl show ?thesis by simp
      next
        case st2: (Inr st2)
        with n1 have f2: "final_results st2 = final_results st @ n1"
          by (simp add: outcome_state_def)
        have later: "\<exists>new. final_results (outcome_state (process_folders a rest st2)) = final_results st2 @ new \<and>
           list_all (folder_row (f # rest)) new"
          using Cons.IH [of st2] by (rule adds_weaker) (rule folder_row_later)
        have "\<exists>new. final_results (outcome_state (process_folders a rest st2)) = final_results st @ new \<and>
           list_all (folder_row (f # rest)) new"
          by (rule adds_more [OF f2 l1' later])
        with fid ex Inr st2 show ?thesis by simp
      qed
    qed
  qed
qed

lemma project_row_later: "project_row rest row \<Longrightarrow> project_row (p # rest) row"
  by (simp add: project_row_def)

lemma project_row_first: "row_location row = ([], [], projectId p) \<Longrightarrow> project_row (p # rest) row"
  by (simp add: project_row_def)

lemma process_projects_adds:
  "\<exists>new. final_results (outcome_state (process_projects a org_id ps st)) = final_results st @ new \<and>
         list_all (project_row ps) new"
proof (induction ps arbitrary: st)
  case Nil
  show ?case by (simp add: outcome_state_def)
next
  case (Cons p rest)
  have later: "\<exists>new. final_results (outcome_state (process_projects a org_id rest st')) = final_results st' @ new \<and>
           list_all (project_row (p # rest)) new" for st'
    using Cons.IH [of st'] by (rule adds_weaker) (rule project_row_later)
  show ?case
  proof (cases "selected org_id (folders st) p")
    case False
    with later [of st] show ?thesis by simp
  next
    case True
    obtain r st1 where ex: "execute (\<lambda>t. projects_getIamPolicy a t (projectId p))
                  (ProjectsGetIamPolicy (projectId p)) st = (r, st1)"
      by (cases "execute (\<lambda>t. projects_getIamPolicy a t (projectId p))
                  (ProjectsGetIamPolicy (projectId p)) st")
    show ?thesis
    proof (cases r)
      case (Inl e)
      obtain m where e: "e = HttpError m" by (cases e)
      let ?st2 = "print_err (''Error getting project IAM: '' @ m) (st1\<lparr>ERROR := Some True\<rparr>)"
      from ex Inl have "st1 = st\<lparr>calls := calls st @ [(ProjectsGetIamPolicy (projectId p), False)]\<rparr>"
        by (auto dest: execute_failed)
      then have f2: "final_results ?st2 = final_results st @ []"
        by (simp add: print_err_def)
      have "\<exists>new. final_results (outcome_state (process_projects a org_id rest ?st2)) = final_results st @ new \<and>
         list_all (project_row (p # rest)) new"
        by (rule adds_more [OF f2 _ later [of ?st2]]) simp
      with True ex Inl e show ?thesis by simp
    next
      case (Inr iam)
      from ex Inr have "st1 = st\<lparr>calls := calls st @ [(ProjectsGetIamPolicy (projectId p), True)]\<rparr>"
        by (auto dest: execute_ok)
      then have f1: "final_results st1 = final_results st" by simp
      from flatten_into_adds [of "([], [], projectId p)" iam st1] f1 obtain n1 where
        n1: "final_results (outcome_state (flatten_into ([], [], projectId p) iam st1)) = final_results st @ n1"
        and l1: "list_all (\<lambda>row. row_location row = ([], [], projectId p)) n1"
        by auto
      from l1 have l1': "list_all (project_row (p # rest)) n1"
        using project_row_first by (auto simp: list_all_iff)
      show ?thesis
      proof (cases "flatten_into ([], [], projectId p) iam st1")
        case (Inl x)
        with n1 have "final_results (outcome_state (Inl x)) = final_results st @ n1" by simp
        with l1' have "\<exists>new. final_results (outcome_state (Inl x)) = final_results st @ new \<and>
          list_all (project_row (p # rest)) new" by (intro exI conjI)
        with True ex Inr Inl show ?thesis by simp
      next
        case st2: (Inr st2)
        with n1 have f2: "final_results st2 = final_results st @ n1"
          by (simp add: outcome_state_def)
        have "\<exists>new. final_results (outcome_state (process_projects a org_id rest st2)) = final_results st @ new \<and>
           list_all (project_row (p # rest)) new"
          by (rule adds_more [OF f2 l1' later [of st2]])
        with True ex Inr st2 show ?thesis by simp
      qed
    qed
  qed
qed

lemma sourced_lists_within: "lists_within (sourced a org_id) a"
proof -
  have f: "folder_within (sourced a org_id) f"
    if "folders_list a t n tok = Inr response" "f \<in> set (folders_of response)" for t n tok response f
  proof (cases "index1 (split_on CHR ''/'' (folder_name f))")
    case (Inl e)
    then show ?thesis by (simp add: folder_within_def)
  next
    case (Inr fid)
    with that have "listed_folder_id a fid"
      unfolding listed_folder_id_def by (intro exI conjI)
    with Inr show ?thesis by (simp add: folder_within_def sourced_def)
  qed
  have p: "project_within (sourced a org_id) p"
    if "projects_list a t tok = Inr response" "p \<in> set (projects_of response)" for t tok response p
  proof -
    from that have "listed_project_id a (projectId p)"
      unfolding listed_project_id_def by (intro exI conjI) simp_all
    then show ?thesis by (simp add: project_within_def sourced_def)
  qed
  show ?thesis
    unfolding lists_within_def
    by (auto simp: list_all_iff f p split: sum.splits)
qed

lemma listed_folder_id_filled: "names_what_it_lists a \<Longrightarrow> listed_folder_id a fid \<Longrightarrow> fid \<noteq> []"
  unfolding names_what_it_lists_def listed_folder_id_def
proof (elim conjE exE)
  fix t n tok response f
  assume all: "\<forall>t n tok. case folders_list a t n tok of Inl e \<Rightarrow> True
      | Inr response \<Rightarrow> list_all has_id (folders_of response)"
    and r: "folders_list a t n tok = Inr response" and f: "f \<in> set (folders_of response)"
    and i: "index1 (split_on CHR ''/'' (folder_name f)) = Inr fid"
  from all [rule_format, of t n tok] r have "list_all has_id (folders_of response)" by simp
  with f have "has_id f" by (simp add: list_all_iff)
  with i show "fid \<noteq> []" by (simp add: has_id_def)
qed

lemma listed_project_id_filled: "names_what_it_lists a \<Longrightarrow> listed_project_id a pid \<Longrightarrow> pid \<noteq> []"
  unfolding names_what_it_lists_def listed_project_id_def
proof (elim conjE exE)
  fix t tok response p
  assume all: "\<forall>t tok. case projects_list a t tok of Inl e \<Rightarrow> True
      | Inr response \<Rightarrow> list_all (\<lambda>p. projectId p \<noteq> []) (projects_of response)"
    and r: "projects_list a t tok = Inr response" and p: "p \<in> set (projects_of response)"
    and i: "projectId p = pid"
  from all [rule_format, of t tok] r have "list_all (\<lambda>p. projectId p \<noteq> []) (projects_of response)" by simp
  with p i show "pid \<noteq> []" by (auto simp: list_all_iff)
qed

lemma sourced_filled:
  "org_id \<noteq> [] \<Longrightarrow> names_what_it_lists a \<Longrightarrow> sourced a org_id loc \<Longrightarrow> filled loc = 1"
  by (cases loc) (auto simp: sourced_def filled_def dest: listed_folder_id_filled listed_project_id_filled)

lemma run_rows_sourced:
  assumes "run a org_id folder_id filename = Some r"
  shows "list_all (\<lambda>row. sourced a org_id (row_location row)) (final_results (outcome_state r))"
proof -
  have q: "sourced a org_id (org_id, [], [])"
    by (simp add: sourced_def)
  from run_summary [of a org_id folder_id filename r "sourced a org_id", OF assms sourced_lists_within q]
  have "rows_within (sourced a org_id) (outcome_state r)"
    by (cases r) (auto simp: outcome_state_def)
  then show ?thesis by (simp add: rows_within_def)
qed

lemma folder_name_format_has_id:
  assumes "folder_name_format (folder_name f)"
  shows "has_id f"
proof -
  let ?i = "drop 8 (folder_name f)"
  from assms have n: "folder_name f = ''folders'' @ CHR ''/'' # ?i"
    and i: "?i \<noteq> []" and s: "CHR ''/'' \<notin> set ?i"
    unfolding folder_name_format_def
    using append_take_drop_id [of 8 "folder_name f"] by auto
  have "CHR ''/'' \<notin> set ''folders''" by simp
  then have "split_on CHR ''/'' (''folders'' @ CHR ''/'' # ?i) = ''folders'' # split_on CHR ''/'' ?i"
    by (rule split_on_first_sep)
  with s have "split_on CHR ''/'' (''folders'' @ CHR ''/'' # ?i) = [''folders'', ?i]"
    by (simp add: split_on_no_sep)
  with n have "split_on CHR ''/'' (folder_name f) = [''folders'', ?i]" by simp
  with i show ?thesis by (simp add: has_id_def index1_def)
qed

lemma folder_row_columns:
  assumes "list_all has_id fs"
    and "folder_row fs (member, kind, rol, org_col, folder_col, project_col)"
  shows "org_col = [] \<and> folder_col \<noteq> [] \<and> project_col = []"
proof -
  from assms(2) obtain f where f: "f \<in> set fs"
    and c: "case index1 (split_on CHR ''/'' (folder_name f)) of
              Inl e \<Rightarrow> False
            | Inr fid \<Rightarrow> row_location (member, kind, rol, org_col, folder_col, project_col) = ([], fid, [])"
    by (auto simp: folder_row_def list_ex_iff)
  from c obtain fid where i: "index1 (split_on CHR ''/'' (folder_name f)) = Inr fid"
    and l: "row_location (member, kind, rol, org_col, folder_col, project_col) = ([], fid, [])"
    by (cases "index1 (split_on CHR ''/'' (folder_name f))") auto
  from assms(1) f have "has_id f" by (simp add: list_all_iff)
  with i have "fid \<noteq> []" by (simp add: has_id_def)
  with l show ?thesis by (simp add: row_location_def)
qed

text \<open>
  C9. Every row collected by a run, whether the run returns or raises, has one of three
  locations: the organization id given to the run in the organization column alone, the
  id of a listed folder in the folder column alone, or the id of a listed project in
  the project column alone. When the organization id is not empty, every listed folder
  has a name with a non-empty second segment and every listed project has a non-empty
  id, exactly one of the three location fields of every such row is filled. The rows
  come from three places: what the fetching of the organization policy appends are rows
  with the organization id alone, what the processing of a page of folders appends are
  rows with the id of one of these folders alone, what the processing of the projects
  appends are rows with the id of one of these projects alone; for a non-empty
  organization id, folders with an id and projects with an id, the column filled is the
  organization column, the folder column and the project column. A folder name in the
  format of the service has an id.
\<close>

theorem location_tagging:
  "(run a org_id folder_id filename = Some r \<longrightarrow>
      list_all (\<lambda>row. sourced a org_id (row_location row)) (final_results (outcome_state r))) \<and>
   (run a org_id folder_id filename = Some r \<and> org_id \<noteq> [] \<and> names_what_it_lists a \<longrightarrow>
      list_all (\<lambda>row. located row = 1) (final_results (outcome_state r))) \<and>
   (\<exists>new. final_results (outcome_state (org_policy a org_id folder_id org st)) =
             final_results st @ new \<and> list_all (org_row org_id) new) \<and>
   (\<exists>new. final_results (outcome_state (process_folders a fs st)) =
             final_results st @ new \<and> list_all (folder_row fs) new) \<and>
   (\<exists>new. final_results (outcome_state (process_projects a org_id ps st)) =
             final_results st @ new \<and> list_all (project_row ps) new) \<and>
   (org_id \<noteq> [] \<and> org_row org_id (member, kind, rol, org_col, folder_col, project_col) \<longrightarrow>
      org_col = org_id \<and> org_col \<noteq> [] \<and> folder_col = [] \<and> project_col = []) \<and>
   (list_all has_id fs \<and> folder_row fs (member, kind, rol, org_col, folder_col, project_col) \<longrightarrow>
      org_col = [] \<and> folder_col \<noteq> [] \<and> project_col = []) \<and>
   (list_all (\<lambda>p. projectId p \<noteq> []) ps \<and>
    project_row ps (member, kind, rol, org_col, folder_col, project_col) \<longrightarrow>
      org_col = [] \<and> folder_col = [] \<and> project_col \<noteq> []) \<and>
   (folder_name_format (folder_name f) \<longrightarrow> has_id f)"
proof (intro conjI impI)
  assume "run a org_id folder_id filename = Some r"
  then show "list_all (\<lambda>row. sourced a org_id (row_location row)) (final_results (outcome_state r))"
    by (rule run_rows_sourced)
next
  assume h: "run a org_id folder_id filename = Some r \<and> org_id \<noteq> [] \<and> names_what_it_lists a"
  then have "run a org_id folder_id filename = Some r" by simp
  then have "list_all (\<lambda>row. sourced a org_id (row_location row)) (final_results (outcome_state r))"
    by (rule run_rows_sourced)
  with h show "list_all (\<lambda>row. located row = 1) (final_results (outcome_state r))"
    by (auto simp: list_all_iff located_filled sourced_filled)
next
  show "\<exists>new. final_results (outcome_state (org_policy a org_id folder_id org st)) =
             final_results st @ new \<and> list_all (org_row org_id) new"
    by (rule org_policy_adds)
next
  show "\<exists>new. final_results (outcome_state (process_folders a fs st)) =
             final_results st @ new \<and> list_all (folder_row fs) new"
    by (rule process_folders_adds)
next
  show "\<exists>new. final_results (outcome_state (process_projects a org_id ps st)) =
             final_results st @ new \<and> list_all (project_row ps) new"
    by (rule process_projects_adds)
next
  assume "org_id \<noteq> [] \<and> org_row org_id (member, kind, rol, org_col, folder_col, project_col)"
  then show "org_col = org_id" "org_col \<noteq> []" "folder_col = []" "project_col = []"
    by (simp_all add: org_row_def row_location_def)
next
  assume "list_all has_id fs \<and> folder_row fs (member, kind, rol, org_col, folder_col, project_col)"
  then show "org_col = []" "folder_col \<noteq> []" "project_col = []"
    by (auto dest: folder_row_columns)
next
  assume "list_all (\<lambda>p. projectId p \<noteq> []) ps \<and>
    project_row ps (member, kind, rol, org_col, folder_col, project_col)"
  then show "org_col = []" "folder_col = []" "project_col \<noteq> []"
    by (auto simp: project_row_def row_location_def list_all_iff list_ex_iff)
next
  assume "folder_name_format (folder_name f)"
  then show "has_id f"
    by (rule folder_name_format_has_id)
qed

theorem location_tagging_witness:
  "''123'' \<noteq> [] \<and> names_what_it_lists example_api \<and>
   map_option (final_results \<circ> outcome_state) (run example_api ''123'' None ''iam_members.csv'') =
     Some [(''organizations/123'', ''user'', ''roles/viewer'', ''123'', [], []),
           (''folders/1'', ''user'', ''roles/viewer'', [], ''1'', []),
           (''folders/999'', ''user'', ''roles/viewer'', [], ''999'', []),
           (''folders/2'', ''user'', ''roles/viewer'', [], ''2'', []),
           (''p-org'', ''user'', ''roles/viewer'', [], [], ''p-org''),
           (''p-999'', ''user'', ''roles/viewer'', [], [], ''p-999''),
           (''p-2'', ''user'', ''roles/viewer'', [], [], ''p-2'')] \<and>
   list_all (\<lambda>row. sourced example_api ''123'' (row_location row))
     [(''organizations/123'', ''user'', ''roles/viewer'', ''123'', [], []),
      (''folders/1'', ''user'', ''roles/viewer'', [], ''1'', []),
      (''folders/999'', ''user'', ''roles/viewer'', [], ''999'', []),
      (''folders/2'', ''user'', ''roles/viewer'', [], ''2'', []),
      (''p-org'', ''user'', ''roles/viewer'', [], [], ''p-org''),
      (''p-999'', ''user'', ''roles/viewer'', [], [], ''p-999''),
      (''p-2'', ''user'', ''roles/viewer'', [], [], ''p-2'')] \<and>
   list_all (\<lambda>row. located row = 1)
     [(''organizations/123'', ''user'', ''roles/viewer'', ''123'', [], []),
      (''folders/1'', ''user'', ''roles/viewer'', [], ''1'', []),
      (''folders/999'', ''user'', ''roles/viewer'', [], ''999'', []),
      (''folders/2'', ''user'', ''roles/viewer'', [], ''2'', []),
      (''p-org'', ''user'', ''roles/viewer'', [], [], ''p-org''),
      (''p-999'', ''user'', ''roles/viewer'', [], [], ''p-999''),
      (''p-2'', ''user'', ''roles/viewer'', [], [], ''p-2'')] \<and>
   org_row ''123'' (''organizations/123'', ''user'', ''roles/viewer'', ''123'', [], []) \<and>
   (''123'' = ''123'' \<and> ''123'' \<noteq> [] \<and> [] = ([] :: string) \<and> [] = ([] :: string)) \<and>
   list_all has_id (example_children ''organizations/123'') \<and>
   folder_row (example_children ''organizations/123'')
     (''folders/999'', ''user'', ''roles/viewer'', [], ''999'', []) \<and>
   ([] = ([] :: string) \<and> ''999'' \<noteq> [] \<and> [] = ([] :: string)) \<and>
   list_all (\<lambda>p. projectId p \<noteq> []) example_projects \<and>
   project_row example_projects (''p-2'', ''user'', ''roles/viewer'', [], [], ''p-2'') \<and>
   ([] = ([] :: string) \<and> [] = ([] :: string) \<and> ''p-2'' \<noteq> []) \<and>
   folder_name_format (folder_name \<lparr>folder_name = ''folders/999''\<rparr>) \<and>
   has_id \<lparr>folder_name = ''folders/999''\<rparr>"
proof -
  let ?rows = "[(''organizations/123'', ''user'', ''roles/viewer'', ''123'', [], []),
      (''folders/1'', ''user'', ''roles/viewer'', [], ''1'', []),
      (''folders/999'', ''user'', ''roles/viewer'', [], ''999'', []),
      (''folders/2'', ''user'', ''roles/viewer'', [], ''2'', []),
      (''p-org'', ''user'', ''roles/viewer'', [], [], ''p-org''),
      (''p-999'', ''user'', ''roles/viewer'', [], [], ''p-999''),
      (''p-2'', ''user'', ''roles/viewer'', [], [], ''p-2'')]"
  have h2: "''123'' \<noteq> []" by simp
  have h3: "names_what_it_lists example_api"
    by (simp add: names_what_it_lists_def example_api_def folders_of_def projects_of_def
        example_children_def example_projects_def has_id_def index1_def)
  have ev: "map_option (final_results \<circ> outcome_state)
              (run example_api ''123'' None ''iam_members.csv'') = Some ?rows"
    by code_simp
  then obtain r where h1: "run example_api ''123'' None ''iam_members.csv'' = Some r"
    and rows: "final_results (outcome_state r) = ?rows"
    by auto
  from h1 h2 h3 have h123: "run example_api ''123'' None ''iam_members.csv'' = Some r \<and>
    ''123'' \<noteq> [] \<and> names_what_it_lists example_api"
    by (intro conjI)
  have o: "org_row ''123'' (''organizations/123'', ''user'', ''roles/viewer'', ''123'', [], [])"
    by (simp add: org_row_def row_location_def)
  have fs: "list_all has_id (example_children ''organizations/123'')"
    by (simp add: example_children_def has_id_def index1_def)
  have f: "folder_row (example_children ''organizations/123'')
     (''folders/999'', ''user'', ''roles/viewer'', [], ''999'', [])"
    by (simp add: example_children_def folder_row_def row_location_def index1_def)
  have ps: "list_all (\<lambda>p. projectId p \<noteq> []) example_projects"
    by (simp add: example_projects_def)
  have p: "project_row example_projects (''p-2'', ''user'', ''roles/viewer'', [], [], ''p-2'')"
    by (simp add: example_projects_def project_row_def row_location_def)
  have n: "folder_name_format (folder_name \<lparr>folder_name = ''folders/999''\<rparr>)"
    by (simp add: folder_name_format_def)
  from location_tagging [where a = example_api and org_id = "''123''" and folder_id = None
      and filename = "''iam_members.csv''" and r = r, THEN conjunct1, THEN mp, OF h1] rows
  have w1: "list_all (\<lambda>row. sourced example_api ''123'' (row_location row)) ?rows"
    by simp
  from location_tagging [where a = example_api and org_id = "''123''" and folder_id = None
      and filename = "''iam_members.csv''" and r = r, THEN conjunct2, THEN conjunct1, THEN mp, OF h123]
    rows
  have w2: "list_all (\<lambda>row. located row = 1) ?rows"
    by simp
  note w6 = location_tagging [where org_id = "''123''" and member = "''organizations/123''"
      and kind = "''user''" and rol = "''roles/viewer''" and org_col = "''123''"
      and folder_col = "[]" and project_col = "[]",
      THEN conjunct2, THEN conjunct2, THEN conjunct2, THEN conjunct2, THEN conjunct2,
      THEN conjunct1, THEN mp, OF conjI, OF h2 o]
  note w7 = location_tagging [where fs = "example_children ''organizations/123''"
      and member = "''folders/999''" and kind = "''user''" and rol = "''roles/viewer''"
      and org_col = "[]" and folder_col = "''999''" and project_col = "[]",
      THEN conjunct2, THEN conjunct2, THEN conjunct2, THEN conjunct2, THEN conjunct2,
      THEN conjunct2, THEN conjunct1, THEN mp, OF conjI, OF fs f]
  note w8 = location_tagging [where ps = example_projects
      and member = "''p-2''" and kind = "''user''" and rol = "''roles/viewer''"
      and org_col = "[]" and folder_col = "[]" and project_col = "''p-2''",
      THEN conjunct2, THEN conjunct2, THEN conjunct2, THEN conjunct2, THEN conjunct2,
      THEN conjunct2, THEN conjunct2, THEN conjunct1, THEN mp, OF conjI, OF ps p]
  note w9 = location_tagging [where f = "\<lparr>folder_name = ''folders/999''\<rparr>",
      THEN conjunct2, THEN conjunct2, THEN conjunct2, THEN conjunct2, THEN conjunct2,
      THEN conjunct2, THEN conjunct2, THEN conjunct2, THEN mp, OF n]
  show ?thesis
    apply (intro conjI)
                     apply (rule h2)
                    apply (rule h3)
                   apply (rule ev)
                  apply (rule w1)
                 apply (rule w2)
                apply (rule o)
               apply (rule w6 [THEN conjunct1])
              apply (rule w6 [THEN conjunct2, THEN conjunct1])
             apply (rule w6 [THEN conjunct2, THEN conjunct2, THEN conjunct1])
            apply (rule w6 [THEN conjunct2, THEN conjunct2, THEN conjunct2])
           apply (rule fs)
          apply (rule f)
         apply (rule w7 [THEN conjunct1])
        apply (rule w7 [THEN conjunct2, THEN conjunct1])
       apply (rule w7 [THEN conjunct2, THEN conjunct2])
      apply (rule ps)
     apply (rule p)
    apply (rule w8 [THEN conjunct1])
      apply (rule w8 [THEN conjunct2, THEN conjunct1])
     apply (rule w8 [THEN conjunct2, THEN conjunct2])
    apply (rule n)
    apply (rule w9)
    done
qed

section \<open>The degraded flag and the exit status\<close>

text \<open>
  C4 as stated fails on a run that an uncaught exception ends: its exit status is not
  zero, yet the flag was never set and no call failed, the fetch of the organization
  included.
\<close>

theorem exit_status_counterexample:
  "map_option fst (main deleted_member_api org_args) = Some 1 \<and>
   map_option (degraded \<circ> snd) (main deleted_member_api org_args) = Some False \<and>
   map_option (all_calls_succeeded \<circ> snd) (main deleted_member_api org_args) = Some True"
  by code_simp

lemma keeps_degraded:
  "keeps Q st r \<Longrightarrow> degraded st \<Longrightarrow> degraded (outcome_state r)"
  by (cases r) (auto simp: keeps_def stable_def outcome_state_def)

lemma returned_flag:
  assumes "run a org_id folder_id filename = Some (Inr st)"
  shows "flag_ok st"
  using run_summary [OF assms lists_within_anything] by simp

lemma finish_raised: "fst (finish (Inl (e, st))) = 1"
  by (cases e) simp_all

lemma finish_returned: "flag_ok st \<Longrightarrow> fst (finish (Inr st)) = (if degraded st then 1 else 0)"
  by (simp add: flag_ok_def degraded_def sys_exit_def split: if_splits)

lemma main_status:
  assumes "main a ar = Some (status, st')"
  shows "(status = 0) =
           (\<exists>st. run a (args_org_id ar) (args_folder ar) (args_output ar) = Some (Inr st) \<and>
                 \<not> degraded st)"
proof -
  from assms obtain r where r: "run a (args_org_id ar) (args_folder ar) (args_output ar) = Some r"
    and f: "finish r = (status, st')"
    by (auto simp: main_def)
  show ?thesis
  proof (cases r)
    case (Inl x)
    obtain e st where "x = (e, st)" by (cases x)
    with Inl f finish_raised [of e st] have "status = 1" by simp
    with r Inl show ?thesis by simp
  next
    case (Inr st)
    with r have "flag_ok st" by (simp add: returned_flag)
    with f Inr have "status = (if degraded st then 1 else 0)"
      using finish_returned [of st] by auto
    with r Inr show ?thesis by simp
  qed
qed

lemma main_status_nonzero:
  assumes "main a ar = Some (status, st')"
  shows "(status \<noteq> 0) =
           ((\<exists>st. run a (args_org_id ar) (args_folder ar) (args_output ar) = Some (Inr st) \<and>
                  degraded st) \<or>
            (\<exists>e st. run a (args_org_id ar) (args_folder ar) (args_output ar) = Some (Inl (e, st))))"
proof -
  from assms obtain r where r: "run a (args_org_id ar) (args_folder ar) (args_output ar) = Some r"
    by (auto simp: main_def)
  show ?thesis
    unfolding main_status [OF assms] using r
    by (cases r) auto
qed

lemma org_policy_failure_degrades:
  "organizations_getIamPolicy a (length (calls st)) (org_name org) = Inl e \<Longrightarrow>
   degraded (outcome_state (org_policy a org_id folder_id org st))"
  by (cases e) (simp add: org_policy_def execute_def succeeded_def print_err_def degraded_def
      outcome_state_def)

lemma folder_policy_failure_degrades:
  assumes "index1 (split_on CHR ''/'' (folder_name f)) = Inr fid"
    and "folders_getIamPolicy a (length (calls st)) (folder_name f) = Inl e"
  shows "degraded (outcome_state (process_folders a (f # rest) st))"
proof -
  obtain m where e: "e = HttpError m" by (cases e)
  let ?st2 = "print_out (''Error getting folder '' @ [CHR 0x22] @ fid @ '' IAM: '' @ m)
     (st\<lparr>stack := stack st @ [folder_name f], folders := insert fid (folders st),
         calls := calls st @ [(FoldersGetIamPolicy (folder_name f), False)], ERROR := Some True\<rparr>)"
  have "degraded ?st2" by (simp add: degraded_def print_out_def)
  moreover have "keeps (\<lambda>loc. True) ?st2 (process_folders a rest ?st2)"
    by (rule process_folders_keeps) (simp add: list_all_iff folder_within_def split: sum.splits)
  ultimately have "degraded (outcome_state (process_folders a rest ?st2))"
    by (intro keeps_degraded)
  moreover from assms e have "process_folders a (f # rest) st = process_folders a rest ?st2"
    by (simp add: execute_def succeeded_def)
  ultimately show ?thesis by simp
qed

lemma project_policy_failure_degrades:
  assumes "selected org_id (folders st) p"
    and "projects_getIamPolicy a (length (calls st)) (projectId p) = Inl e"
  shows "degraded (outcome_state (process_projects a org_id (p # ps) st))"
proof -
  obtain m where e: "e = HttpError m" by (cases e)
  let ?st2 = "print_err (''Error getting project IAM: '' @ m)
     (st\<lparr>calls := calls st @ [(ProjectsGetIamPolicy (projectId p), False)], ERROR := Some True\<rparr>)"
  have "degraded ?st2" by (simp add: degraded_def print_err_def)
  moreover have "keeps (\<lambda>loc. True) ?st2 (process_projects a org_id ps ?st2)"
    by (rule process_projects_keeps) (simp add: list_all_iff project_within_def)
  ultimately have "degraded (outcome_state (process_projects a org_id ps ?st2))"
    by (intro keeps_degraded)
  moreover from assms e have "process_projects a org_id (p # ps) st = process_projects a org_id ps ?st2"
    by (simp add: execute_def succeeded_def)
  ultimately show ?thesis by simp
qed

lemma listing_failure_degrades:
  assumes "folders_list a (length (calls st)) current token = Inl e"
    and "list_children a current token st = Some r"
  shows "degraded (outcome_state r)"
proof -
  obtain m where e: "e = HttpError m" by (cases e)
  let ?st2 = "print_err (''Error getting child folders of '' @ [CHR 0x22] @ current @ [CHR 0x22] @ '': '' @ m)
     ((print_out ''Getting folders...'' st)
        \<lparr>calls := calls st @ [(FoldersList current token, False)], ERROR := Some True\<rparr>)"
  have d: "degraded ?st2" by (simp add: degraded_def print_err_def)
  from assms e have "list_children a current token ?st2 = Some r"
    by (subst (asm) list_children.simps) (simp add: execute_def succeeded_def print_out_def)
  then have "keeps (\<lambda>loc. True) ?st2 r"
    using lists_within_anything by (rule list_children_keeps)
  then show ?thesis using d by (rule keeps_degraded)
qed

lemma returned_some: "(case x of None \<Rightarrow> False | Some y \<Rightarrow> True) \<Longrightarrow> x = Some (the x)"
  by (cases x) simp_all

lemma returned_normally:
  "(case x of Some (Inr st) \<Rightarrow> True | _ \<Rightarrow> False) \<Longrightarrow> x = Some (Inr (outcome_state (the x)))"
  by (auto simp: outcome_state_def split: option.splits sum.splits)

lemma ended_with: "map_option fst x = Some s \<Longrightarrow> x = Some (s, snd (the x))"
  by (cases x) auto

text \<open>
  C4, amended. The flag is not set when the run starts. Each of the four failures the
  source catches leaves the flag set. A flag that is set stays set through every phase
  of the run, whether the phase returns or raises. A run that returns is degraded
  exactly when one of its calls failed, however many succeeded after it. The exit
  status is 0 exactly when the run returns and is not degraded; it is not 0 exactly
  when the run returns degraded or is ended by an exception, which is the
  \<^verbatim>\<open>SystemExit\<close> of the organization that could not be fetched or an exception that
  nothing catches.
\<close>

theorem degraded_flag_and_exit_status:
  "ERROR init_state = None \<and>
   (organizations_getIamPolicy a (length (calls st)) (org_name org) = Inl e \<longrightarrow>
      degraded (outcome_state (org_policy a org_id folder_id org st))) \<and>
   (folders_list a (length (calls st)) current token = Inl e \<and>
    list_children a current token st = Some r \<longrightarrow>
      degraded (outcome_state r)) \<and>
   (index1 (split_on CHR ''/'' (folder_name f)) = Inr fid \<and>
    folders_getIamPolicy a (length (calls st)) (folder_name f) = Inl e \<longrightarrow>
      degraded (outcome_state (process_folders a (f # fs) st))) \<and>
   (selected org_id (folders st) p \<and>
    projects_getIamPolicy a (length (calls st)) (projectId p) = Inl e \<longrightarrow>
      degraded (outcome_state (process_projects a org_id (p # ps) st))) \<and>
   (degraded st \<and> get_projects a token st = Some r \<longrightarrow> degraded (outcome_state r)) \<and>
   (degraded st \<longrightarrow> degraded (outcome_state (set_parent a org_id folder_id org st))) \<and>
   (degraded st \<and> walk a st = Some r \<longrightarrow> degraded (outcome_state r)) \<and>
   (degraded st \<longrightarrow> degraded (outcome_state (process_projects a org_id ps st))) \<and>
   (degraded st \<longrightarrow> degraded (outcome_state (write_file a filename st))) \<and>
   (run a org_id folder_id filename = Some (Inr st) \<longrightarrow>
      degraded st = (\<not> all_calls_succeeded st)) \<and>
   (main a ar = Some (status, st') \<longrightarrow>
      (status = 0) =
        (\<exists>st. run a (args_org_id ar) (args_folder ar) (args_output ar) = Some (Inr st) \<and>
              \<not> degraded st) \<and>
      (status \<noteq> 0) =
        ((\<exists>st. run a (args_org_id ar) (args_folder ar) (args_output ar) = Some (Inr st) \<and>
               degraded st) \<or>
         (\<exists>e st. run a (args_org_id ar) (args_folder ar) (args_output ar) = Some (Inl (e, st)))))"
proof (intro conjI impI)
  show "ERROR init_state = None"
    by (simp add: init_state_def)
next
  assume "organizations_getIamPolicy a (length (calls st)) (org_name org) = Inl e"
  then show "degraded (outcome_state (org_policy a org_id folder_id org st))"
    by (rule org_policy_failure_degrades)
next
  assume "folders_list a (length (calls st)) current token = Inl e \<and>
    list_children a current token st = Some r"
  then show "degraded (outcome_state r)"
    using listing_failure_degrades by metis
next
  assume "index1 (split_on CHR ''/'' (folder_name f)) = Inr fid \<and>
    folders_getIamPolicy a (length (calls st)) (folder_name f) = Inl e"
  then show "degraded (outcome_state (process_folders a (f # fs) st))"
    using folder_policy_failure_degrades by metis
next
  assume "selected org_id (folders st) p \<and>
    projects_getIamPolicy a (length (calls st)) (projectId p) = Inl e"
  then show "degraded (outcome_state (process_projects a org_id (p # ps) st))"
    using project_policy_failure_degrades by metis
next
  assume "degraded st \<and> get_projects a token st = Some r"
  then show "degraded (outcome_state r)"
    using get_projects_keeps [OF _ lists_within_anything] keeps_degraded by metis
next
  assume "degraded st"
  with set_parent_keeps [of "\<lambda>loc. True" org_id st a folder_id org]
  show "degraded (outcome_state (set_parent a org_id folder_id org st))"
    by (intro keeps_degraded) simp_all
next
  assume "degraded st \<and> walk a st = Some r"
  then show "degraded (outcome_state r)"
    using walk_keeps [OF _ lists_within_anything] keeps_degraded by metis
next
  assume "degraded st"
  with process_projects_keeps [of "\<lambda>loc. True" ps st a org_id]
  show "degraded (outcome_state (process_projects a org_id ps st))"
    by (intro keeps_degraded) (simp_all add: list_all_iff project_within_def)
next
  assume "degraded st"
  then show "degraded (outcome_state (write_file a filename st))"
    by (cases "write_file a filename st")
       (auto simp: outcome_state_def degraded_def dest: write_file_raises write_file_returns)
next
  assume "run a org_id folder_id filename = Some (Inr st)"
  then have "flag_ok st" by (rule returned_flag)
  then show "degraded st = (\<not> all_calls_succeeded st)"
    by (simp add: flag_ok_def degraded_def split: if_splits)
next
  assume "main a ar = Some (status, st')"
  then show "(status = 0) =
        (\<exists>st. run a (args_org_id ar) (args_folder ar) (args_output ar) = Some (Inr st) \<and>
              \<not> degraded st)"
    by (rule main_status)
next
  assume "main a ar = Some (status, st')"
  then show "(status \<noteq> 0) =
        ((\<exists>st. run a (args_org_id ar) (args_folder ar) (args_output ar) = Some (Inr st) \<and>
               degraded st) \<or>
         (\<exists>e st. run a (args_org_id ar) (args_folder ar) (args_output ar) = Some (Inl (e, st))))"
    by (rule main_status_nonzero)
qed

theorem degraded_flag_and_exit_status_witness:
  "ERROR init_state = None \<and>
   degraded (outcome_state (org_policy org_policy_denied_api ''123'' None \<lparr>org_name = ''organizations/123''\<rparr> init_state)) \<and>
   degraded (outcome_state (the (list_children flaky_api ''folders/999'' None init_state))) \<and>
   degraded (outcome_state (process_folders folder_policy_denied_api [\<lparr>folder_name = ''folders/1''\<rparr>] init_state)) \<and>
   degraded (outcome_state (process_projects project_policy_denied_api ''123'' [hd example_projects] init_state)) \<and>
   degraded degraded_state \<and>
   degraded (outcome_state (the (get_projects example_api None degraded_state))) \<and>
   degraded (outcome_state (set_parent example_api ''123'' None \<lparr>org_name = ''organizations/123''\<rparr> degraded_state)) \<and>
   degraded (outcome_state (the (walk example_api degraded_state))) \<and>
   degraded (outcome_state (process_projects example_api ''123'' example_projects degraded_state)) \<and>
   degraded (outcome_state (write_file example_api ''iam_members.csv'' degraded_state)) \<and>
   run flaky_api ''123'' (Some ''999'') ''iam_members.csv'' =
     Some (Inr (outcome_state (the (run flaky_api ''123'' (Some ''999'') ''iam_members.csv'')))) \<and>
   degraded (outcome_state (the (run flaky_api ''123'' (Some ''999'') ''iam_members.csv''))) =
     (\<not> all_calls_succeeded (outcome_state (the (run flaky_api ''123'' (Some ''999'') ''iam_members.csv'')))) \<and>
   map_option (all_calls_succeeded \<circ> outcome_state) (run flaky_api ''123'' (Some ''999'') ''iam_members.csv'') =
     Some False \<and>
   map_option fst (main flaky_api folder_args) = Some 1 \<and>
   (\<exists>st. run flaky_api (args_org_id folder_args) (args_folder folder_args) (args_output folder_args) =
           Some (Inr st) \<and> degraded st) \<and>
   map_option fst (main example_api org_args) = Some 0 \<and>
   (\<exists>st. run example_api (args_org_id org_args) (args_folder org_args) (args_output org_args) =
           Some (Inr st) \<and> \<not> degraded st)"
proof -
  let ?run = "run flaky_api ''123'' (Some ''999'') ''iam_members.csv''"
  have t1: "organizations_getIamPolicy org_policy_denied_api (length (calls init_state))
              (org_name \<lparr>org_name = ''organizations/123''\<rparr>) = Inl (HttpError ''403'')"
    by (simp add: org_policy_denied_api_def)
  have t2: "folders_list flaky_api (length (calls init_state)) ''folders/999'' None = Inl (HttpError ''503'') \<and>
            list_children flaky_api ''folders/999'' None init_state =
              Some (the (list_children flaky_api ''folders/999'' None init_state))"
  proof
    show "folders_list flaky_api (length (calls init_state)) ''folders/999'' None = Inl (HttpError ''503'')"
      by (simp add: flaky_api_def init_state_def)
    have "case list_children flaky_api ''folders/999'' None init_state of None \<Rightarrow> False | Some y \<Rightarrow> True"
      by code_simp
    then show "list_children flaky_api ''folders/999'' None init_state =
              Some (the (list_children flaky_api ''folders/999'' None init_state))"
      by (rule returned_some)
  qed
  have t3: "index1 (split_on CHR ''/'' (folder_name \<lparr>folder_name = ''folders/1''\<rparr>)) = Inr ''1'' \<and>
            folders_getIamPolicy folder_policy_denied_api (length (calls init_state))
              (folder_name \<lparr>folder_name = ''folders/1''\<rparr>) = Inl (HttpError ''403'')"
    by (simp add: folder_policy_denied_api_def index1_def)
  have t4: "selected ''123'' (folders init_state) (hd example_projects) \<and>
            projects_getIamPolicy project_policy_denied_api (length (calls init_state))
              (projectId (hd example_projects)) = Inl (HttpError ''403'')"
    by (simp add: project_policy_denied_api_def example_projects_def selected_def
        parent_get_id_def lower_def lower_char_def init_state_def)
  have d: "degraded degraded_state"
    by (simp add: degraded_def degraded_state_def)
  have d1: "degraded degraded_state \<and> get_projects example_api None degraded_state =
              Some (the (get_projects example_api None degraded_state))"
  proof
    show "degraded degraded_state" by (rule d)
    have "case get_projects example_api None degraded_state of None \<Rightarrow> False | Some y \<Rightarrow> True"
      by code_simp
    then show "get_projects example_api None degraded_state =
              Some (the (get_projects example_api None degraded_state))"
      by (rule returned_some)
  qed
  have d3: "degraded degraded_state \<and> walk example_api degraded_state =
              Some (the (walk example_api degraded_state))"
  proof
    show "degraded degraded_state" by (rule d)
    have "case walk example_api degraded_state of None \<Rightarrow> False | Some y \<Rightarrow> True"
      by code_simp
    then show "walk example_api degraded_state = Some (the (walk example_api degraded_state))"
      by (rule returned_some)
  qed
  have "case ?run of Some (Inr st) \<Rightarrow> True | _ \<Rightarrow> False"
    by code_simp
  then have b: "?run = Some (Inr (outcome_state (the ?run)))"
    by (rule returned_normally)
  have bf: "map_option (all_calls_succeeded \<circ> outcome_state) ?run = Some False"
    by code_simp
  have m1: "map_option fst (main flaky_api folder_args) = Some 1"
    by code_simp
  then have c1: "main flaky_api folder_args = Some (1, snd (the (main flaky_api folder_args)))"
    by (rule ended_with)
  have m0: "map_option fst (main example_api org_args) = Some 0"
    by code_simp
  then have c0: "main example_api org_args = Some (0, snd (the (main example_api org_args)))"
    by (rule ended_with)
  note i1 = degraded_flag_and_exit_status [THEN conjunct1]
  note i2 = degraded_flag_and_exit_status [where a = org_policy_denied_api and st = init_state
      and org = "\<lparr>org_name = ''organizations/123''\<rparr>" and e = "HttpError ''403''" and org_id = "''123''" and folder_id = None,
      THEN conjunct2, THEN conjunct1, THEN mp, OF t1]
  note i3 = degraded_flag_and_exit_status [where a = flaky_api and st = init_state
      and current = "''folders/999''" and token = None and e = "HttpError ''503''"
      and r = "the (list_children flaky_api ''folders/999'' None init_state)",
      THEN conjunct2, THEN conjunct2, THEN conjunct1, THEN mp, OF t2]
  note i4 = degraded_flag_and_exit_status [where a = folder_policy_denied_api and st = init_state
      and f = "\<lparr>folder_name = ''folders/1''\<rparr>" and fid = "''1''" and e = "HttpError ''403''"
      and fs = "[]",
      THEN conjunct2, THEN conjunct2, THEN conjunct2, THEN conjunct1, THEN mp, OF t3]
  note i5 = degraded_flag_and_exit_status [where a = project_policy_denied_api and st = init_state
      and p = "hd example_projects" and org_id = "''123''" and e = "HttpError ''403''" and ps = "[]",
      THEN conjunct2, THEN conjunct2, THEN conjunct2, THEN conjunct2, THEN conjunct1, THEN mp, OF t4]
  note i6 = degraded_flag_and_exit_status [where a = example_api and st = degraded_state
      and token = None and r = "the (get_projects example_api None degraded_state)",
      THEN conjunct2, THEN conjunct2, THEN conjunct2, THEN conjunct2, THEN conjunct2, THEN conjunct1, THEN mp, OF d1]
  note i7 = degraded_flag_and_exit_status [where a = example_api and st = degraded_state
      and org_id = "''123''" and folder_id = None and org = "\<lparr>org_name = ''organizations/123''\<rparr>",
      THEN conjunct2, THEN conjunct2, THEN conjunct2, THEN conjunct2, THEN conjunct2, THEN conjunct2, THEN conjunct1, THEN mp, OF d]
  note i8 = degraded_flag_and_exit_status [where a = example_api and st = degraded_state
      and r = "the (walk example_api degraded_state)",
      THEN conjunct2, THEN conjunct2, THEN conjunct2, THEN conjunct2, THEN conjunct2, THEN conjunct2, THEN conjunct2, THEN conjunct1, THEN mp, OF d3]
  note i9 = degraded_flag_and_exit_status [where a = example_api and st = degraded_state
      and org_id = "''123''" and ps = example_projects,
      THEN conjunct2, THEN conjunct2, THEN conjunct2, THEN conjunct2, THEN conjunct2, THEN conjunct2, THEN conjunct2, THEN conjunct2, THEN conjunct1, THEN mp, OF d]
  note i10 = degraded_flag_and_exit_status [where a = example_api and st = degraded_state
      and filename = "''iam_members.csv''",
      THEN conjunct2, THEN conjunct2, THEN conjunct2, THEN conjunct2, THEN conjunct2, THEN conjunct2, THEN conjunct2, THEN conjunct2, THEN conjunct2, THEN conjunct1, THEN mp, OF d]
  note i11 = degraded_flag_and_exit_status [where a = flaky_api and org_id = "''123''"
      and folder_id = "Some ''999''" and filename = "''iam_members.csv''"
      and st = "outcome_state (the ?run)",
      THEN conjunct2, THEN conjunct2, THEN conjunct2, THEN conjunct2, THEN conjunct2, THEN conjunct2, THEN conjunct2, THEN conjunct2, THEN conjunct2, THEN conjunct2, THEN conjunct1, THEN mp, OF b]
  note i12 = degraded_flag_and_exit_status [where a = flaky_api and ar = folder_args
      and status = 1 and st' = "snd (the (main flaky_api folder_args))",
      THEN conjunct2, THEN conjunct2, THEN conjunct2, THEN conjunct2, THEN conjunct2, THEN conjunct2, THEN conjunct2, THEN conjunct2, THEN conjunct2, THEN conjunct2, THEN conjunct2, THEN mp, OF c1]
  note i13 = degraded_flag_and_exit_status [where a = example_api and ar = org_args
      and status = 0 and st' = "snd (the (main example_api org_args))",
      THEN conjunct2, THEN conjunct2, THEN conjunct2, THEN conjunct2, THEN conjunct2, THEN conjunct2, THEN conjunct2, THEN conjunct2, THEN conjunct2, THEN conjunct2, THEN conjunct2, THEN mp, OF c0]
  from i12 have r1: "\<exists>st. run flaky_api (args_org_id folder_args) (args_folder folder_args)
      (args_output folder_args) = Some (Inr st) \<and> degraded st"
    using b by (auto simp: folder_args_def)
  from i13 have r0: "\<exists>st. run example_api (args_org_id org_args) (args_folder org_args)
      (args_output org_args) = Some (Inr st) \<and> \<not> degraded st"
    by simp
  show ?thesis
    apply (intro conjI)
                     apply (rule i1)
                    apply (rule i2)
                   apply (rule i3)
                  apply (rule i4)
                 apply (rule i5)
                apply (rule d)
               apply (rule i6)
              apply (rule i7)
             apply (rule i8)
            apply (rule i9)
           apply (rule i10)
          apply (rule b)
         apply (rule i11)
        apply (rule bf)
       apply (rule m1)
      apply (rule r1)
     apply (rule m0)
    apply (rule r0)
    done
qed

end
